theory Spec2Isabelle
  imports Complex_Main "HOL-Library.Word"
begin

unbundle bit_operations_syntax

section \<open>Python values of the offline pipeline analyzer\<close>

text \<open>
  The analyzer (\<^verbatim>\<open>tools/visualize_pipeline.py\<close>) works on Python strings, floats,
  integers and dictionaries.  Strings are lists of characters.  A timestamp
  (\<^verbatim>\<open>float(ts)\<close>) is a \<^typ>\<open>real\<close>, the value of the float: the arithmetic of the source
  (\<open>-\<close>, \<open>*\<close>, \<open>/\<close>, \<^verbatim>\<open>int(...)\<close>) is taken on exact numbers, except in the flamegraph
  export, whose count is the product rounded as the machine rounds it.  The special
  values NaN and infinity are not values of a timestamp in the model.  A correlation key (\<^verbatim>\<open>op_id\<close>) is what
  \<^verbatim>\<open>data.get('op_id')\<close> yields for a log line: \<^verbatim>\<open>None\<close>, an integer or a string.
\<close>

datatype op_key = KNone | KInt int | KStr string

type_synonym details = "(string \<times> string) list"

text \<open>\<^verbatim>\<open>sub in s\<close> on Python strings: \<open>sub\<close> occurs in \<open>s\<close> as a contiguous slice.\<close>

fun startswith :: "string \<Rightarrow> string \<Rightarrow> bool" where
  "startswith s [] = True"
| "startswith [] (p # ps) = False"
| "startswith (c # cs) (p # ps) = (c = p \<and> startswith cs ps)"

fun str_in :: "string \<Rightarrow> string \<Rightarrow> bool" where
  "str_in sub [] = (sub = [])"
| "str_in sub (c # cs) = (startswith (c # cs) sub \<or> str_in sub cs)"

text \<open>
  \<^verbatim>\<open>int(x)\<close> on a Python float truncates towards zero.
\<close>

definition py_int :: "real \<Rightarrow> int" where
  "py_int x = (if 0 \<le> x then \<lfloor>x\<rfloor> else \<lceil>x\<rceil>)"

text \<open>
  \<^verbatim>\<open>str(n)\<close> of a Python integer, as an f-string formats it: decimal digits, with a minus
  sign for a negative number.
\<close>

fun str_nat :: "nat \<Rightarrow> string" where
  "str_nat n = (if n < 10 then [''0123456789'' ! n]
                else str_nat (n div 10) @ [''0123456789'' ! (n mod 10)])"

declare str_nat.simps [simp del]

definition str_int :: "int \<Rightarrow> string" where
  "str_int i = (if i < 0 then CHR ''-'' # str_nat (nat (- i)) else str_nat (nat i))"

text \<open>The exceptions of the source that the model keeps as values.\<close>

datatype py_error = ZeroDivisionError | IndexError | OverflowError | RuntimeError string

section \<open>Events, operations and the analyzer\<close>

text \<open>
  \<^verbatim>\<open>class CUDATraceEvent\<close>: the constructor stores \<^verbatim>\<open>float(ts)\<close>, \<^verbatim>\<open>int(depth)\<close> and
  \<^verbatim>\<open>details or {}\<close>; the record holds the stored values.
\<close>

record CUDATraceEvent =
  ts :: real
  name :: string
  phase :: string
  op_id :: op_key
  tid :: "int option"
  depth :: int
  details :: details

text \<open>
  A completed operation is the dictionary \<^verbatim>\<open>op\<close> built by \<^verbatim>\<open>match_events\<close>, with the keys
  \<^verbatim>\<open>name\<close>, \<^verbatim>\<open>start\<close>, \<^verbatim>\<open>end\<close>, \<^verbatim>\<open>duration\<close>, \<^verbatim>\<open>depth\<close> and \<^verbatim>\<open>details\<close>.
\<close>

record operation =
  op_name :: string
  op_start :: real
  op_end :: real
  op_duration :: real
  op_depth :: int
  op_details :: details

text \<open>
  \<^verbatim>\<open>class PipelineAnalyzer\<close>: \<^verbatim>\<open>categories\<close> is a \<^verbatim>\<open>defaultdict(list)\<close>, a missing key
  reads as the empty list.
\<close>

record PipelineAnalyzer =
  events :: "CUDATraceEvent list"
  categories :: "string \<rightharpoonup> operation list"
  timeline :: "operation list"

definition init_analyzer :: PipelineAnalyzer where
  "init_analyzer = \<lparr>events = [], categories = Map.empty, timeline = []\<rparr>"

subsection \<open>Categorization\<close>

definition categorize :: "string \<Rightarrow> string" where
  "categorize func_name =
     (if str_in ''MemAlloc'' func_name \<or> str_in ''MemFree'' func_name then ''memory_mgmt''
      else if str_in ''Memcpy'' func_name then ''transfer''
      else if str_in ''Launch'' func_name then ''kernel''
      else if str_in ''Ctx'' func_name then ''context''
      else if str_in ''Stream'' func_name then ''stream''
      else if str_in ''Module'' func_name then ''module''
      else if str_in ''Init'' func_name \<or> str_in ''Device'' func_name then ''init''
      else if str_in ''Synchronize'' func_name then ''sync''
      else ''other'')"

text \<open>
  The rule table as the specification words it: nine rules in a fixed order, each a list
  of substrings and a category, the first rule with a substring occurring in the name
  wins, and the last rule (no substring required) gives \<open>other\<close>.
\<close>

definition category_rules :: "(string list \<times> string) list" where
  "category_rules =
     [([''MemAlloc'', ''MemFree''], ''memory_mgmt''),
      ([''Memcpy''], ''transfer''),
      ([''Launch''], ''kernel''),
      ([''Ctx''], ''context''),
      ([''Stream''], ''stream''),
      ([''Module''], ''module''),
      ([''Init'', ''Device''], ''init''),
      ([''Synchronize''], ''sync'')]"

fun first_match :: "(string list \<times> string) list \<Rightarrow> string \<Rightarrow> string" where
  "first_match [] func_name = ''other''"
| "first_match ((subs, cat) # rules) func_name =
     (if list_ex (\<lambda>sub. str_in sub func_name) subs then cat else first_match rules func_name)"

definition categorize_spec :: "string \<Rightarrow> string" where
  "categorize_spec func_name = first_match category_rules func_name"

subsection \<open>Matching begin and end events\<close>

text \<open>
  One iteration of the loop of \<^verbatim>\<open>match_events\<close>.  The state is the local dictionary
  \<^verbatim>\<open>stack\<close> (correlation key to pending begin event) and the analyzer, whose
  \<^verbatim>\<open>timeline\<close> and \<^verbatim>\<open>categories\<close> the loop appends to.  The test
  \<^verbatim>\<open>event.op_id in stack\<close> and the following \<^verbatim>\<open>stack.pop\<close> are the case distinction on the
  lookup.
\<close>

definition match_step ::
  "(op_key \<rightharpoonup> CUDATraceEvent) \<times> PipelineAnalyzer \<Rightarrow> CUDATraceEvent \<Rightarrow>
   (op_key \<rightharpoonup> CUDATraceEvent) \<times> PipelineAnalyzer" where
  "match_step st event =
     (if phase event = ''B'' then ((fst st)(op_id event \<mapsto> event), snd st)
      else if phase event = ''E'' then
        (case fst st (op_id event) of
           None \<Rightarrow> st
         | Some begin_ev \<Rightarrow>
             let duration = ts event - ts begin_ev;
                 op = \<lparr>op_name = name event, op_start = ts begin_ev, op_end = ts event,
                       op_duration = duration, op_depth = depth begin_ev,
                       op_details = details event\<rparr>;
                 category = categorize (name event)
             in ((fst st)(op_id event := None),
                 (snd st)\<lparr>timeline := timeline (snd st) @ [op],
                          categories := (categories (snd st))
                            (category \<mapsto> (case categories (snd st) category of
                                             None \<Rightarrow> [] | Some ops \<Rightarrow> ops) @ [op])\<rparr>))
      else st)"

text \<open>The loop over a list of events that is already in scan order.\<close>

definition match_scan ::
  "(op_key \<rightharpoonup> CUDATraceEvent) \<times> PipelineAnalyzer \<Rightarrow> CUDATraceEvent list \<Rightarrow>
   (op_key \<rightharpoonup> CUDATraceEvent) \<times> PipelineAnalyzer" where
  "match_scan st evs = foldl match_step st evs"

text \<open>
  \<^verbatim>\<open>match_events\<close>: the events are scanned in the order of
  \<^verbatim>\<open>sorted(self.events, key=lambda e: e.ts)\<close>, a stable sort (\<^const>\<open>sort_key\<close> is stable as
  well), starting from the empty \<^verbatim>\<open>stack\<close>.
\<close>

definition match_events :: "PipelineAnalyzer \<Rightarrow> PipelineAnalyzer" where
  "match_events self = snd (match_scan (Map.empty, self) (sort_key ts (events self)))"

text \<open>The analyzer after \<^verbatim>\<open>load_jsonl\<close> has stored the decoded events of a log.\<close>

definition loaded :: "CUDATraceEvent list \<Rightarrow> PipelineAnalyzer" where
  "loaded evs = init_analyzer\<lparr>events := evs\<rparr>"

subsection \<open>Flamegraph export\<close>

text \<open>
  The count of a flamegraph line is \<^verbatim>\<open>int(op['duration'] * 1000000)\<close>.  The product is a
  product of Python floats (IEEE 754 binary64: the integer 1000000 is converted exactly):
  the exact product is rounded to the nearest number with a significand of 53 bits, a
  tie going to the even significand.  For a number \<open>x\<close> that is not zero, with
  \<open>2 ^ e \<le> \<bar>x\<bar> < 2 ^ (e + 1)\<close>, the spacing of these numbers is \<open>2 ^ (e - 52)\<close>, and it is
  \<open>2 ^ - 1074\<close> in the subnormal range below \<open>2 ^ - 1022\<close>.
\<close>

definition round_half_even :: "real \<Rightarrow> int" where
  "round_half_even r =
     (let f = \<lfloor>r\<rfloor>
      in if r - of_int f < 1 / 2 then f
         else if 1 / 2 < r - of_int f then f + 1
         else if even f then f else f + 1)"

definition ulp_exponent :: "real \<Rightarrow> int" where
  "ulp_exponent x = max (\<lfloor>log 2 \<bar>x\<bar>\<rfloor> - 52) (- 1074)"

definition double_round :: "real \<Rightarrow> real" where
  "double_round x =
     (if x = 0 then 0
      else of_int (round_half_even (x / 2 powi ulp_exponent x)) * 2 powi ulp_exponent x)"

text \<open>
  \<^verbatim>\<open>a * b\<close> on floats: when the rounded product reaches \<open>2 ^ 1024\<close> in magnitude the result
  is an infinity, here \<open>None\<close>.  \<^verbatim>\<open>int(x)\<close> of an infinity raises \<^verbatim>\<open>OverflowError\<close>, and
  truncates a finite float towards zero.
\<close>

definition float_mul :: "real \<Rightarrow> real \<Rightarrow> real option" where
  "float_mul a b =
     (let r = double_round (a * b) in if 2 ^ 1024 \<le> \<bar>r\<bar> then None else Some r)"

definition int_of_float :: "real option \<Rightarrow> py_error + int" where
  "int_of_float x = (case x of None \<Rightarrow> Inl OverflowError | Some r \<Rightarrow> Inr (py_int r))"

text \<open>
  The body of the loop of \<^verbatim>\<open>generate_flamegraph_data\<close>: the string handed to \<^verbatim>\<open>f.write\<close>
  (\<^verbatim>\<open>f"{stack} {count}\n"\<close>), or the exception of \<^verbatim>\<open>int\<close>.
\<close>

definition flamegraph_line :: "operation \<Rightarrow> py_error + string" where
  "flamegraph_line op =
     (let stack = ''CUDA;'' @ op_name op
      in case int_of_float (float_mul (op_duration op) 1000000) of
           Inl err \<Rightarrow> Inl err
         | Inr count \<Rightarrow> Inr (stack @ '' '' @ str_int count @ [CHR 0x0A]))"

text \<open>
  The loop over the operations in the order given: the strings written, in order, unless
  an exception ends the function.
\<close>

fun write_lines :: "operation list \<Rightarrow> py_error + string list" where
  "write_lines [] = Inr []"
| "write_lines (op # ops) =
     (case flamegraph_line op of
        Inl err \<Rightarrow> Inl err
      | Inr line \<Rightarrow>
          (case write_lines ops of
             Inl err \<Rightarrow> Inl err
           | Inr lines \<Rightarrow> Inr (line # lines)))"

text \<open>
  \<^verbatim>\<open>generate_flamegraph_data\<close>: the loop runs over
  \<^verbatim>\<open>sorted(self.timeline, key=lambda x: x['start'])\<close>.
\<close>

definition generate_flamegraph_data :: "PipelineAnalyzer \<Rightarrow> py_error + string list" where
  "generate_flamegraph_data self = write_lines (sort_key op_start (timeline self))"

subsection \<open>Trace-viewer export\<close>





subsection \<open>ASCII timeline\<close>

text \<open>
  A lane is the list \<^verbatim>\<open>timeline = [' '] * timeline_width\<close> of one-character strings; a
  character is kept as its Unicode code point (32 is the space).  The symbols of
  \<^verbatim>\<open>category_symbols\<close> are U+2593, U+2588, U+2592, U+25CF, U+2591, U+25C6, U+25C7, U+25AA
  and U+00B7.
\<close>

type_synonym codepoint = nat

definition timeline_width :: int where
  "timeline_width = 80"

definition category_symbols :: "string \<rightharpoonup> codepoint" where
  "category_symbols = map_of
     [(''init'', 9619), (''memory_mgmt'', 9608), (''transfer'', 9618), (''kernel'', 9679),
      (''sync'', 9617), (''context'', 9670), (''stream'', 9671), (''module'', 9642),
      (''other'', 183)]"

text \<open>
  \<^verbatim>\<open>xs[i] = v\<close> on a Python list: a negative index counts from the end, an index outside
  \<open>-len .. len - 1\<close> raises \<^verbatim>\<open>IndexError\<close>.
\<close>

definition set_item :: "'a list \<Rightarrow> int \<Rightarrow> 'a \<Rightarrow> py_error + 'a list" where
  "set_item xs i v =
     (if 0 \<le> i \<and> i < int (length xs) then Inr (xs[nat i := v])
      else if i < 0 \<and> - int (length xs) \<le> i then Inr (xs[nat (int (length xs) + i) := v])
      else Inl IndexError)"

text \<open>
  The innermost loop, \<^verbatim>\<open>for i in range(start_pos, min(end_pos, timeline_width))\<close> with its
  guard \<^verbatim>\<open>if i < len(timeline)\<close>, over the list of the indices of the range.
\<close>

fun paint_cells :: "codepoint list \<Rightarrow> int list \<Rightarrow> codepoint \<Rightarrow> py_error + codepoint list" where
  "paint_cells lane [] symbol = Inr lane"
| "paint_cells lane (i # is) symbol =
     (if i < int (length lane) then
        (case set_item lane i symbol of
           Inl err \<Rightarrow> Inl err
         | Inr lane' \<Rightarrow> paint_cells lane' is symbol)
      else paint_cells lane is symbol)"

text \<open>
  The body of \<^verbatim>\<open>for op in depth_groups[depth]\<close>.  Dividing a float by \<^verbatim>\<open>total_duration\<close>
  raises \<^verbatim>\<open>ZeroDivisionError\<close> when that is zero.
\<close>

definition paint_op ::
  "real \<Rightarrow> real \<Rightarrow> codepoint list \<Rightarrow> operation \<Rightarrow> py_error + codepoint list" where
  "paint_op start_time total_duration lane op =
     (if total_duration = 0 then Inl ZeroDivisionError
      else
        let start_pos = py_int (((op_start op - start_time) / total_duration) * real_of_int timeline_width);
            end_pos = py_int (((op_end op - start_time) / total_duration) * real_of_int timeline_width);
            end_pos = (if start_pos = end_pos then start_pos + 1 else end_pos);
            category = categorize (op_name op);
            symbol = (case category_symbols category of Some s \<Rightarrow> s | None \<Rightarrow> 183)
        in paint_cells lane [start_pos..min end_pos timeline_width - 1] symbol)"

fun paint_lane ::
  "real \<Rightarrow> real \<Rightarrow> codepoint list \<Rightarrow> operation list \<Rightarrow> py_error + codepoint list" where
  "paint_lane start_time total_duration lane [] = Inr lane"
| "paint_lane start_time total_duration lane (op # ops) =
     (case paint_op start_time total_duration lane op of
        Inl err \<Rightarrow> Inl err
      | Inr lane' \<Rightarrow> paint_lane start_time total_duration lane' ops)"

text \<open>
  The loop \<^verbatim>\<open>for depth in range(max_depth + 1)\<close>: a depth without operations is skipped,
  \<^verbatim>\<open>depth_groups[depth]\<close> is the list of the operations of that depth in the order of
  \<^verbatim>\<open>ops\<close>.  The result collects the lines printed, each with its depth.
\<close>

fun lanes_loop ::
  "real \<Rightarrow> real \<Rightarrow> operation list \<Rightarrow> int list \<Rightarrow> py_error + (int \<times> codepoint list) list" where
  "lanes_loop start_time total_duration ops [] = Inr []"
| "lanes_loop start_time total_duration ops (d # ds) =
     (if filter (\<lambda>op. op_depth op = d) ops = [] then lanes_loop start_time total_duration ops ds
      else
        (case paint_lane start_time total_duration (replicate (nat timeline_width) 32)
                (filter (\<lambda>op. op_depth op = d) ops) of
           Inl err \<Rightarrow> Inl err
         | Inr lane \<Rightarrow>
             (case lanes_loop start_time total_duration ops ds of
                Inl err \<Rightarrow> Inl err
              | Inr lanes \<Rightarrow> Inr ((d, lane) # lanes))))"

text \<open>
  What \<^verbatim>\<open>print_ascii_timeline\<close> prints, without the fixed text (banner, legend, time
  scale): either the notice that there is no timeline, or the total duration and the
  lanes.  An exception ends the function.
\<close>

datatype ascii_report = NoTimelineData | Lanes real "(int \<times> codepoint list) list"

definition print_ascii_timeline :: "PipelineAnalyzer \<Rightarrow> py_error + ascii_report" where
  "print_ascii_timeline self =
     (if timeline self = [] then Inr NoTimelineData
      else
        let ops = sort_key op_start (timeline self);
            start_time = op_start (hd ops);
            end_time = op_end (last ops);
            total_duration = end_time - start_time;
            max_depth = Max (set (map op_depth ops))
        in (case lanes_loop start_time total_duration ops [0..max_depth] of
              Inl err \<Rightarrow> Inl err
            | Inr lanes \<Rightarrow> Inr (Lanes total_duration lanes)))"

section \<open>The live tracer: finding the library\<close>

text \<open>
  \<^verbatim>\<open>ebpf/cuda_tracer.py\<close>.  \<^verbatim>\<open>s.split(sep)\<close> for a separator that is not empty cuts \<open>s\<close> at the
  occurrences of \<open>sep\<close> found from left to right; \<^verbatim>\<open>s.strip()\<close> removes white space at both
  ends (of the ASCII characters: tab, line feed, vertical tab, form feed, carriage
  return, the separators 28 to 31 and the space).
\<close>

fun split_from :: "string \<Rightarrow> string \<Rightarrow> string \<Rightarrow> string list" where
  "split_from sep acc [] = [acc]"
| "split_from sep acc (c # cs) =
     (if sep \<noteq> [] \<and> startswith (c # cs) sep
      then acc # split_from sep [] (drop (length sep) (c # cs))
      else split_from sep (acc @ [c]) cs)"

definition py_split :: "string \<Rightarrow> string \<Rightarrow> string list" where
  "py_split s sep = split_from sep [] s"

definition is_space :: "char \<Rightarrow> bool" where
  "is_space c = (c \<in> set [CHR 0x09, CHR 0x0A, CHR 0x0B, CHR 0x0C, CHR 0x0D,
                           CHR 0x1C, CHR 0x1D, CHR 0x1E, CHR 0x1F, CHR '' ''])"

definition py_strip :: "string \<Rightarrow> string" where
  "py_strip s = rev (dropWhile is_space (rev (dropWhile is_space s)))"

definition possible_paths :: "string list" where
  "possible_paths =
     [''/lib/x86_64-linux-gnu/libcuda.so.1'',
      ''/usr/lib/x86_64-linux-gnu/libcuda.so.1'',
      ''/usr/lib64/libcuda.so.1'',
      ''/usr/local/cuda/lib64/libcuda.so.1'']"

text \<open>The loop over the lines of the output of \<^verbatim>\<open>ldconfig -p\<close>.\<close>

fun scan_ldconfig :: "string list \<Rightarrow> string option" where
  "scan_ldconfig [] = None"
| "scan_ldconfig (line # lines) =
     (if str_in ''libcuda.so'' line then
        (let parts = py_split line ''=>''
         in if length parts > 1 then Some (py_strip (parts ! 1)) else scan_ldconfig lines)
      else scan_ldconfig lines)"

text \<open>
  The failure that the specification calls \<^verbatim>\<open>LibraryNotFoundError\<close> is, in the source, the
  exception of the last line of \<^verbatim>\<open>find_libcuda_path\<close>:
  \<^verbatim>\<open>raise RuntimeError("Could not find libcuda.so")\<close>.
\<close>

definition LibraryNotFoundError :: py_error where
  "LibraryNotFoundError = RuntimeError ''Could not find libcuda.so''"

text \<open>
  \<^verbatim>\<open>find_libcuda_path\<close>.  The world outside is a parameter: \<open>path_exists\<close> is
  \<^verbatim>\<open>os.path.exists\<close>, and \<open>ldconfig\<close> is what \<^verbatim>\<open>subprocess.run(['ldconfig', '-p'], ...)\<close>
  gives: \<open>Some stdout\<close>, or \<open>None\<close> when the call raises (the bare \<^verbatim>\<open>except: pass\<close>
  swallows every exception of the \<^verbatim>\<open>try\<close> block).
\<close>

definition find_libcuda_path :: "(string \<Rightarrow> bool) \<Rightarrow> string option \<Rightarrow> py_error + string" where
  "find_libcuda_path path_exists ldconfig =
     (case find path_exists possible_paths of
        Some path \<Rightarrow> Inr path
      | None \<Rightarrow>
          (case ldconfig of
             None \<Rightarrow> Inl LibraryNotFoundError
           | Some stdout \<Rightarrow>
               (case scan_ldconfig (py_split stdout [CHR 0x0A]) of
                  Some path \<Rightarrow> Inr path
                | None \<Rightarrow> Inl LibraryNotFoundError)))"

text \<open>
  \<^verbatim>\<open>CUDATracer.run\<close> calls \<^verbatim>\<open>find_libcuda_path\<close> before anything else that acts on the
  system.  An exception leaves \<^verbatim>\<open>run\<close> at once; otherwise the rest of \<^verbatim>\<open>run\<close>
  (discovering the functions, loading the BPF program, attaching the probes, polling)
  works on the path found.  That rest is the parameter \<open>trace_session\<close>.
\<close>

definition run ::
  "(string \<Rightarrow> bool) \<Rightarrow> string option \<Rightarrow> (string \<Rightarrow> 'r) \<Rightarrow> py_error + 'r" where
  "run path_exists ldconfig trace_session =
     (case find_libcuda_path path_exists ldconfig of
        Inl err \<Rightarrow> Inl err
      | Inr libcuda_path \<Rightarrow> Inr (trace_session libcuda_path))"

text \<open>
  The search order as the specification words it.  The known paths resolve the library
  when one of them exists; the linker cache resolves it when \<^verbatim>\<open>ldconfig -p\<close> ran and a line
  of its output names \<^verbatim>\<open>libcuda.so\<close> and has the \<^verbatim>\<open>=>\<close> that precedes the path.
\<close>

definition ldconfig_lists :: "string option \<Rightarrow> bool" where
  "ldconfig_lists ldconfig =
     (case ldconfig of
        None \<Rightarrow> False
      | Some stdout \<Rightarrow>
          list_ex (\<lambda>line. str_in ''libcuda.so'' line \<and> str_in ''=>'' line)
            (py_split stdout [CHR 0x0A]))"

section \<open>The live tracer: the generic entry and exit probes\<close>

text \<open>
  The C program \<^verbatim>\<open>BPF_PROGRAM\<close> of \<^verbatim>\<open>ebpf/cuda_tracer.py\<close>.  \<^verbatim>\<open>u32\<close> and \<^verbatim>\<open>u64\<close> are machine
  words, their arithmetic wraps around.  An event is \<^verbatim>\<open>struct event_t\<close>; the generic probes
  fill the fields below and leave \<^verbatim>\<open>func_name\<close> and the rest of the union \<^verbatim>\<open>data\<close> zero.
\<close>

type_synonym u32 = "32 word"
type_synonym u64 = "64 word"

record event_t =
  timestamp_ns :: u64
  event_id :: u64
  pid :: u32
  ev_tid :: u32
  event_type :: u32
  ev_depth :: u32
  retval :: u64

definition EVENT_CUDA_CALL_ENTER :: u32 where
  "EVENT_CUDA_CALL_ENTER = 1"

definition EVENT_CUDA_CALL_EXIT :: u32 where
  "EVENT_CUDA_CALL_EXIT = 2"

text \<open>
  What a probe reads from the kernel when it fires: the clock
  (\<^verbatim>\<open>bpf_ktime_get_ns()\<close>), the caller (\<^verbatim>\<open>bpf_get_current_pid_tgid()\<close>) and the return
  register (\<^verbatim>\<open>PT_REGS_RC(ctx)\<close>).
\<close>

record probe_ctx =
  ktime_ns :: u64
  pid_tgid :: u64
  regs_rc :: u64

text \<open>
  The tables of the program: \<^verbatim>\<open>BPF_HASH\<close> tables are partial maps, the one-element
  \<^verbatim>\<open>BPF_ARRAY\<close> \<^verbatim>\<open>event_counter\<close> always holds its element, and \<^verbatim>\<open>events\<close> (the perf
  buffer) is the list of the events submitted.  Updates of a table are taken to succeed
  (the tables stay below their capacity).
\<close>

record bpf_tables =
  call_depth :: "u32 \<rightharpoonup> u32"
  entry_timestamp :: "u64 \<rightharpoonup> u64"
  event_counter :: u64
  call_count :: "u64 \<rightharpoonup> u64"
  total_duration :: "u64 \<rightharpoonup> u64"
  perf_events :: "event_t list"

definition init_tables :: bpf_tables where
  "init_tables =
     \<lparr>call_depth = Map.empty, entry_timestamp = Map.empty, event_counter = 0,
      call_count = Map.empty, total_duration = Map.empty, perf_events = []\<rparr>"

definition current_tid :: "probe_ctx \<Rightarrow> u32" where
  "current_tid ctx = ucast (pid_tgid ctx AND 0xFFFFFFFF)"

definition current_pid :: "probe_ctx \<Rightarrow> u32" where
  "current_pid ctx = ucast (drop_bit 32 (pid_tgid ctx))"

text \<open>\<^verbatim>\<open>table.increment(key, val)\<close>: a missing key starts from zero.\<close>

definition increment :: "(u64 \<rightharpoonup> u64) \<Rightarrow> u64 \<Rightarrow> u64 \<Rightarrow> (u64 \<rightharpoonup> u64)" where
  "increment table key val = table(key \<mapsto> (case table key of None \<Rightarrow> 0 | Some v \<Rightarrow> v) + val)"

text \<open>\<^verbatim>\<open>get_event_id\<close>: the value of the counter, which is then incremented.\<close>

definition get_event_id :: "bpf_tables \<Rightarrow> u64 \<times> bpf_tables" where
  "get_event_id t = (event_counter t, t\<lparr>event_counter := event_counter t + 1\<rparr>)"

definition trace_cuda_entry :: "probe_ctx \<Rightarrow> bpf_tables \<Rightarrow> bpf_tables" where
  "trace_cuda_entry ctx t0 =
     (let (eid, t) = get_event_id t0;
          tid = current_tid ctx;
          current_depth = (case call_depth t tid of Some d \<Rightarrow> d + 1 | None \<Rightarrow> 1);
          event = \<lparr>timestamp_ns = ktime_ns ctx, event_id = eid, pid = current_pid ctx,
                   ev_tid = tid, event_type = EVENT_CUDA_CALL_ENTER,
                   ev_depth = current_depth, retval = 0\<rparr>;
          key = push_bit 32 (ucast tid :: u64)
      in t\<lparr>call_depth := (call_depth t)(tid \<mapsto> current_depth),
           entry_timestamp := (entry_timestamp t)(key \<mapsto> timestamp_ns event),
           perf_events := perf_events t @ [event]\<rparr>)"

definition trace_cuda_exit :: "probe_ctx \<Rightarrow> bpf_tables \<Rightarrow> bpf_tables" where
  "trace_cuda_exit ctx t0 =
     (let (eid, t) = get_event_id t0;
          tid = current_tid ctx;
          event = \<lparr>timestamp_ns = ktime_ns ctx, event_id = eid, pid = current_pid ctx,
                   ev_tid = tid, event_type = EVENT_CUDA_CALL_EXIT,
                   ev_depth = 0, retval = regs_rc ctx\<rparr>;
          (t, event) =
            (case call_depth t tid of
               Some d \<Rightarrow>
                 if 0 < d
                 then (t\<lparr>call_depth := (call_depth t)(tid \<mapsto> d - 1)\<rparr>, event\<lparr>ev_depth := d\<rparr>)
                 else (t, event)
             | None \<Rightarrow> (t, event));
          key = push_bit 32 (ucast tid :: u64);
          t = (case entry_timestamp t key of
                 Some entry_ts \<Rightarrow>
                   let duration = timestamp_ns event - entry_ts
                   in t\<lparr>total_duration := increment (total_duration t) key duration,
                        call_count := increment (call_count t) key 1\<rparr>
               | None \<Rightarrow> t)
      in t\<lparr>perf_events := perf_events t @ [event]\<rparr>)"

text \<open>
  A run of the generic probes: each call of an instrumented function fires the entry
  probe, each return the exit probe, with what the kernel reports at that moment.
\<close>

datatype probe = Entry probe_ctx | Exit probe_ctx

fun probe_tid :: "probe \<Rightarrow> u32" where
  "probe_tid (Entry ctx) = current_tid ctx"
| "probe_tid (Exit ctx) = current_tid ctx"

fun is_entry :: "probe \<Rightarrow> bool" where
  "is_entry (Entry ctx) = True"
| "is_entry (Exit ctx) = False"

fun fire :: "bpf_tables \<Rightarrow> probe \<Rightarrow> bpf_tables" where
  "fire t (Entry ctx) = trace_cuda_entry ctx t"
| "fire t (Exit ctx) = trace_cuda_exit ctx t"

definition run_probes :: "bpf_tables \<Rightarrow> probe list \<Rightarrow> bpf_tables" where
  "run_probes t ps = foldl fire t ps"

text \<open>
  The depth of a thread: the entry of \<^verbatim>\<open>call_depth\<close>, and zero for a thread without one
  (the entry probe counts from there: \<^verbatim>\<open>depth ? *depth + 1 : 1\<close>).
\<close>

definition depth_of :: "bpf_tables \<Rightarrow> u32 \<Rightarrow> u32" where
  "depth_of t thread = (case call_depth t thread of None \<Rightarrow> 0 | Some d \<Rightarrow> d)"

text \<open>What one probe does to the depth of its thread.\<close>

fun depth_step :: "u32 \<Rightarrow> probe \<Rightarrow> u32" where
  "depth_step d (Entry ctx) = d + 1"
| "depth_step d (Exit ctx) = (if 0 < d then d - 1 else d)"

section \<open>Example logs\<close>

text \<open>
  The two-line log of the specification: a begin and an end event with \<^verbatim>\<open>op_id\<close> 1 at 0.0
  and 0.5 seconds.  \<^verbatim>\<open>load_jsonl\<close> fills the fields the lines leave out with its
  defaults (\<^verbatim>\<open>'unknown'\<close>, \<^verbatim>\<open>None\<close>, 0, \<^verbatim>\<open>{}\<close>).
\<close>

definition two_line_log :: "CUDATraceEvent list" where
  "two_line_log =
     [\<lparr>ts = 0.0, name = ''unknown'', phase = ''B'', op_id = KInt 1, tid = None, depth = 0,
       details = []\<rparr>,
      \<lparr>ts = 0.5, name = ''unknown'', phase = ''E'', op_id = KInt 1, tid = None, depth = 0,
       details = []\<rparr>]"

text \<open>Two begin events with the same key before the one end event.\<close>

definition double_begin_log :: "CUDATraceEvent list" where
  "double_begin_log =
     [\<lparr>ts = 0.0, name = ''cuMemAlloc'', phase = ''B'', op_id = KInt 1, tid = None, depth = 0,
       details = []\<rparr>,
      \<lparr>ts = 1.0, name = ''cuMemAlloc'', phase = ''B'', op_id = KInt 1, tid = None, depth = 1,
       details = []\<rparr>,
      \<lparr>ts = 2.0, name = ''cuMemAlloc'', phase = ''E'', op_id = KInt 1, tid = None, depth = 1,
       details = []\<rparr>]"

text \<open>An end event whose key was never opened, followed by a complete pair.\<close>

definition stray_end_log :: "CUDATraceEvent list" where
  "stray_end_log =
     [\<lparr>ts = 0.1, name = ''cuMemFree'', phase = ''E'', op_id = KInt 2, tid = None, depth = 0,
       details = []\<rparr>,
      \<lparr>ts = 0.2, name = ''cuMemAlloc'', phase = ''B'', op_id = KInt 1, tid = None, depth = 0,
       details = []\<rparr>,
      \<lparr>ts = 0.3, name = ''cuMemAlloc'', phase = ''E'', op_id = KInt 1, tid = None, depth = 0,
       details = []\<rparr>]"

text \<open>A pair whose begin and end events differ in name, depth and details.\<close>

definition renamed_end_log :: "CUDATraceEvent list" where
  "renamed_end_log =
     [\<lparr>ts = 1.0, name = ''cuMemAlloc'', phase = ''B'', op_id = KInt 7, tid = None, depth = 2,
       details = [(''size'', ''4096'')]\<rparr>,
      \<lparr>ts = 1.5, name = ''cuLaunchKernel'', phase = ''E'', op_id = KInt 7, tid = None, depth = 5,
       details = [(''retval'', ''0'')]\<rparr>]"

text \<open>
  A complete pair from 0.0 to 1.0 seconds, then a pair that begins and ends at 1.0 seconds,
  both at depth 0.
\<close>

definition zero_width_end_log :: "CUDATraceEvent list" where
  "zero_width_end_log =
     [\<lparr>ts = 0.0, name = ''cuMemAlloc'', phase = ''B'', op_id = KInt 1, tid = None, depth = 0,
       details = []\<rparr>,
      \<lparr>ts = 1.0, name = ''cuMemAlloc'', phase = ''E'', op_id = KInt 1, tid = None, depth = 0,
       details = []\<rparr>,
      \<lparr>ts = 1.0, name = ''cuLaunchKernel'', phase = ''B'', op_id = KInt 2, tid = None, depth = 0,
       details = []\<rparr>,
      \<lparr>ts = 1.0, name = ''cuLaunchKernel'', phase = ''E'', op_id = KInt 2, tid = None, depth = 0,
       details = []\<rparr>]"

text \<open>An output of \<^verbatim>\<open>ldconfig -p\<close> with a line for the library.\<close>

definition ldconfig_sample :: string where
  "ldconfig_sample =
     ''2 libs found in cache'' @ [CHR 0x0A, CHR 0x09] @
     ''libcuda.so.1 (libc6,x86-64) => /usr/lib/wsl/lib/libcuda.so.1'' @ [CHR 0x0A]"

text \<open>A probe that fires at time \<open>now\<close> in thread 7 of process 5.\<close>

definition thread7 :: "u64 \<Rightarrow> probe_ctx" where
  "thread7 now = \<lparr>ktime_ns = now, pid_tgid = 0x500000007, regs_rc = 0\<rparr>"

text \<open>
  A pair of 0.03 seconds: the float read from \<^verbatim>\<open>0.03\<close> is \<open>1080863910568919 / 2 ^ 55\<close>,
  a little below three hundredths.
\<close>

definition rounding_log :: "CUDATraceEvent list" where
  "rounding_log =
     [\<lparr>ts = 0.0, name = ''cuMemAlloc'', phase = ''B'', op_id = KInt 1, tid = None, depth = 0,
       details = []\<rparr>,
      \<lparr>ts = 1080863910568919 / 2 ^ 55, name = ''cuMemAlloc'', phase = ''E'', op_id = KInt 1,
       tid = None, depth = 0, details = []\<rparr>]"

text \<open>A pair whose duration is the float \<open>2 ^ 1010\<close>, about \<open>1.1e304\<close> seconds.\<close>

definition huge_duration_log :: "CUDATraceEvent list" where
  "huge_duration_log =
     [\<lparr>ts = 0.0, name = ''cuMemAlloc'', phase = ''B'', op_id = KInt 1, tid = None, depth = 0,
       details = []\<rparr>,
      \<lparr>ts = 2 ^ 1010, name = ''cuMemAlloc'', phase = ''E'', op_id = KInt 1, tid = None,
       depth = 0, details = []\<rparr>]"

section \<open>Categorization is the ordered rule table\<close>

lemma categorize_refines_rule_table: "categorize func_name = categorize_spec func_name"
  by (simp add: categorize_def categorize_spec_def category_rules_def)

text \<open>
  Claim C2, as amended.  \<^const>\<open>categorize\<close> is a function of the name alone and equals the
  first-match evaluation of the nine-rule table in the order of the specification.  A
  name that contains \<open>Stream\<close> and \<open>Synchronize\<close> is put in \<open>stream\<close> (rule 5 is before rule
  8) provided that none of the rules 1 to 4 applies, that is, the name contains none of
  \<open>MemAlloc\<close>, \<open>MemFree\<close>, \<open>Memcpy\<close>, \<open>Launch\<close> and \<open>Ctx\<close>.
\<close>

theorem categorize_stream_before_sync:
  "categorize func_name = categorize_spec func_name
   \<and> (str_in ''Stream'' func_name \<and> str_in ''Synchronize'' func_name
        \<and> \<not> str_in ''MemAlloc'' func_name \<and> \<not> str_in ''MemFree'' func_name
        \<and> \<not> str_in ''Memcpy'' func_name \<and> \<not> str_in ''Launch'' func_name
        \<and> \<not> str_in ''Ctx'' func_name
      \<longrightarrow> categorize func_name = ''stream'')"
  by (simp add: categorize_refines_rule_table [symmetric]) (simp add: categorize_def)

theorem categorize_stream_before_sync_witness:
  "str_in ''Stream'' ''cuStreamSynchronize'' \<and> str_in ''Synchronize'' ''cuStreamSynchronize''
   \<and> \<not> str_in ''MemAlloc'' ''cuStreamSynchronize'' \<and> \<not> str_in ''MemFree'' ''cuStreamSynchronize''
   \<and> \<not> str_in ''Memcpy'' ''cuStreamSynchronize'' \<and> \<not> str_in ''Launch'' ''cuStreamSynchronize''
   \<and> \<not> str_in ''Ctx'' ''cuStreamSynchronize''
   \<and> categorize ''cuStreamSynchronize'' = ''stream''
   \<and> categorize_spec ''cuStreamSynchronize'' = ''stream''"
  using categorize_stream_before_sync [of "''cuStreamSynchronize''"]
  by (simp add: categorize_def categorize_spec_def category_rules_def)

text \<open>
  The claim as written has no proviso.  The name \<open>cuCtxStreamSynchronize\<close> contains
  \<open>Stream\<close> and \<open>Synchronize\<close>, and rule 4 (\<open>Ctx\<close>) puts it in \<open>context\<close>.
\<close>

theorem categorize_stream_sync_counterexample:
  "str_in ''Stream'' ''cuCtxStreamSynchronize'' \<and> str_in ''Synchronize'' ''cuCtxStreamSynchronize''
   \<and> categorize ''cuCtxStreamSynchronize'' = ''context''
   \<and> categorize ''cuCtxStreamSynchronize'' \<noteq> ''stream''"
  by (simp add: categorize_def)

section \<open>Matching: the scan of \<^verbatim>\<open>match_events\<close>\<close>

lemma match_scan_Nil: "match_scan st [] = st"
  by (simp add: match_scan_def)

lemma match_scan_Cons: "match_scan st (x # xs) = match_scan (match_step st x) xs"
  by (simp add: match_scan_def)

lemma match_scan_append: "match_scan st (xs @ ys) = match_scan (match_scan st xs) ys"
  by (simp add: match_scan_def)

lemma match_scan_snoc: "match_scan st (xs @ [x]) = match_step (match_scan st xs) x"
  by (simp add: match_scan_def)

lemma match_step_begin:
  "phase b = ''B'' \<Longrightarrow> match_step st b = ((fst st)(op_id b \<mapsto> b), snd st)"
  by (simp add: match_step_def)

lemma match_step_unmatched_end:
  "phase e = ''E'' \<Longrightarrow> fst st (op_id e) = None \<Longrightarrow> match_step st e = st"
  by (simp add: match_step_def)

lemma match_step_matched_end:
  "phase e = ''E'' \<Longrightarrow> fst st (op_id e) = Some b \<Longrightarrow>
   match_step st e =
     ((fst st)(op_id e := None),
      (snd st)\<lparr>timeline := timeline (snd st) @
                 [\<lparr>op_name = name e, op_start = ts b, op_end = ts e,
                   op_duration = ts e - ts b, op_depth = depth b, op_details = details e\<rparr>],
               categories := (categories (snd st))
                 (categorize (name e) \<mapsto>
                    (case categories (snd st) (categorize (name e)) of
                       None \<Rightarrow> [] | Some ops \<Rightarrow> ops) @
                    [\<lparr>op_name = name e, op_start = ts b, op_end = ts e,
                      op_duration = ts e - ts b, op_depth = depth b,
                      op_details = details e\<rparr>])\<rparr>)"
  by (simp add: match_step_def Let_def)



lemma match_step_timeline_grows:
  "\<exists>more. timeline (snd (match_step st x)) = timeline (snd st) @ more \<and> length more \<le> (if phase x = ''E'' then 1 else 0)"
  by (simp add: match_step_def Let_def split: option.split)

lemma match_scan_timeline_grows:
  "\<exists>more. timeline (snd (match_scan st xs)) = timeline (snd st) @ more \<and>
     length more \<le> length (filter (\<lambda>x. phase x = ''E'') xs)"
proof (induction xs arbitrary: st)
  case Nil
  then show ?case by (simp add: match_scan_Nil)
next
  case (Cons x xs)
  obtain m1 where m1: "timeline (snd (match_step st x)) = timeline (snd st) @ m1"
    "length m1 \<le> (if phase x = ''E'' then 1 else 0)"
    using match_step_timeline_grows by blast
  obtain m2 where m2: "timeline (snd (match_scan (match_step st x) xs)) = timeline (snd (match_step st x)) @ m2"
    "length m2 \<le> length (filter (\<lambda>x. phase x = ''E'') xs)"
    using Cons.IH by blast
  have "timeline (snd (match_scan st (x # xs))) = timeline (snd st) @ (m1 @ m2)"
    using m1 m2 by (simp add: match_scan_Cons)
  moreover have "length (m1 @ m2) \<le> length (filter (\<lambda>x. phase x = ''E'') (x # xs))"
    using m1 m2 by (simp split: if_splits)
  ultimately show ?case by blast
qed

lemma match_scan_events: "events (snd (match_scan st xs)) = events (snd st)"
  by (induction xs arbitrary: st) (simp_all add: match_scan_Nil match_scan_Cons match_step_def Let_def split: option.split)

lemma filter_sort_key_length:
  "length (filter P (sort_key f xs)) = length (filter P xs)"
  by (simp add: filter_sort)

subsection \<open>A begin event and its end event give one operation\<close>



lemma match_step_pending_shadowed:
  assumes "snd st = snd st'" and "\<forall>j. j \<noteq> k \<longrightarrow> fst st j = fst st' j"
    and "\<not> (phase x = ''E'' \<and> op_id x = k)"
  shows "snd (match_step st x) = snd (match_step st' x)
         \<and> (\<forall>j. j \<noteq> k \<longrightarrow> fst (match_step st x) j = fst (match_step st' x) j)"
proof (cases "phase x = ''B''")
  case True
  then show ?thesis using assms by (simp add: match_step_begin)
next
  case notB: False
  show ?thesis
  proof (cases "phase x = ''E''")
    case True
    then have "op_id x \<noteq> k" using assms(3) by simp
    then have "fst st (op_id x) = fst st' (op_id x)" using assms(2) by simp
    then show ?thesis using assms(1,2) True notB
      by (cases "fst st' (op_id x)") (simp_all add: match_step_def Let_def)
  next
    case False
    then show ?thesis using assms notB by (simp add: match_step_def)
  qed
qed

lemma match_scan_pending_shadowed:
  assumes "snd st = snd st'" and "\<forall>j. j \<noteq> k \<longrightarrow> fst st j = fst st' j"
    and "list_all (\<lambda>x. \<not> (phase x = ''E'' \<and> op_id x = k)) xs"
  shows "snd (match_scan st xs) = snd (match_scan st' xs)
         \<and> (\<forall>j. j \<noteq> k \<longrightarrow> fst (match_scan st xs) j = fst (match_scan st' xs) j)"
  using assms
proof (induction xs arbitrary: st st')
  case Nil
  then show ?case by (simp add: match_scan_Nil)
next
  case (Cons x xs)
  have "snd (match_step st x) = snd (match_step st' x)
         \<and> (\<forall>j. j \<noteq> k \<longrightarrow> fst (match_step st x) j = fst (match_step st' x) j)"
    using Cons.prems by (intro match_step_pending_shadowed) simp_all
  then show ?case
    using Cons.IH [of "match_step st x" "match_step st' x"] Cons.prems(3)
    by (simp add: match_scan_Cons)
qed

lemma match_step_begin_overwrites:
  assumes "snd st = snd st'" and "\<forall>j. j \<noteq> op_id b \<longrightarrow> fst st j = fst st' j"
    and "phase b = ''B''"
  shows "match_step st b = match_step st' b"
proof -
  have "(fst st)(op_id b \<mapsto> b) = (fst st')(op_id b \<mapsto> b)"
    using assms(2) by (auto simp: fun_eq_iff)
  then show ?thesis using assms(1,3) by (simp add: match_step_begin)
qed

subsection \<open>A second begin event replaces the pending one\<close>

text \<open>
  Claim C3.  The pending dictionary maps a correlation key to at most one begin event.
  Scanning a begin event stores it under its \<^verbatim>\<open>op_id\<close>, whatever was stored there, and
  leaves the analyzer unchanged.  When a second begin event \<open>b2\<close> with the key of \<open>b1\<close> is
  scanned before an end event with that key, the pending entry becomes \<open>b2\<close>, and the scan
  goes on exactly as if \<open>b1\<close> had not been in the log: \<open>b1\<close> gives no operation.
\<close>

theorem second_begin_replaces_first:
  assumes scan: "sort_key ts (events self) = pre @ b1 # mid @ b2 # post"
    and b1: "phase b1 = ''B''"
    and b2: "phase b2 = ''B''"
    and key: "op_id b2 = op_id b1"
    and mid: "list_all (\<lambda>x. \<not> (phase x = ''E'' \<and> op_id x = op_id b1)) mid"
  shows "match_scan (Map.empty, self) (pre @ [b1]) =
           ((fst (match_scan (Map.empty, self) pre))(op_id b1 \<mapsto> b1),
            snd (match_scan (Map.empty, self) pre))
         \<and> fst (match_scan (Map.empty, self) (pre @ b1 # mid @ [b2])) (op_id b1) = Some b2
         \<and> match_scan (Map.empty, self) (pre @ b1 # mid @ [b2]) =
             match_scan (Map.empty, self) (pre @ mid @ [b2])
         \<and> match_events self = snd (match_scan (Map.empty, self) (pre @ mid @ b2 # post))"
proof -
  let ?s0 = "match_scan (Map.empty, self) pre"
  have first: "match_scan (Map.empty, self) (pre @ [b1]) = ((fst ?s0)(op_id b1 \<mapsto> b1), snd ?s0)"
    using b1 by (simp add: match_scan_snoc match_step_begin)
  have "snd (match_step ?s0 b1) = snd ?s0
        \<and> (\<forall>j. j \<noteq> op_id b1 \<longrightarrow> fst (match_step ?s0 b1) j = fst ?s0 j)"
    using b1 by (simp add: match_step_begin)
  then have shadow: "snd (match_scan (match_step ?s0 b1) mid) = snd (match_scan ?s0 mid)
        \<and> (\<forall>j. j \<noteq> op_id b2 \<longrightarrow>
              fst (match_scan (match_step ?s0 b1) mid) j = fst (match_scan ?s0 mid) j)"
    using mid key match_scan_pending_shadowed [of "match_step ?s0 b1" ?s0 "op_id b1" mid] by simp
  have same: "match_step (match_scan (match_step ?s0 b1) mid) b2 = match_step (match_scan ?s0 mid) b2"
    using shadow b2 by (intro match_step_begin_overwrites) simp_all
  have l: "match_scan (Map.empty, self) (pre @ b1 # mid @ [b2]) =
           match_step (match_scan (match_step ?s0 b1) mid) b2"
    using match_scan_snoc [of "(Map.empty, self)" "pre @ b1 # mid" b2]
    by (simp add: match_scan_append match_scan_Cons)
  have r: "match_scan (Map.empty, self) (pre @ mid @ [b2]) = match_step (match_scan ?s0 mid) b2"
    using match_scan_snoc [of "(Map.empty, self)" "pre @ mid" b2]
    by (simp add: match_scan_append)
  have eq: "match_scan (Map.empty, self) (pre @ b1 # mid @ [b2]) =
            match_scan (Map.empty, self) (pre @ mid @ [b2])"
    using same l r by simp
  have pend: "fst (match_scan (Map.empty, self) (pre @ b1 # mid @ [b2])) (op_id b1) = Some b2"
    using b2 key by (simp add: l match_step_begin)
  have "match_scan (Map.empty, self) (pre @ b1 # mid @ b2 # post) =
        match_scan (match_scan (Map.empty, self) (pre @ b1 # mid @ [b2])) post"
    using match_scan_append [of "(Map.empty, self)" "pre @ b1 # mid @ [b2]" post] by simp
  moreover have "match_scan (Map.empty, self) (pre @ mid @ b2 # post) =
        match_scan (match_scan (Map.empty, self) (pre @ mid @ [b2])) post"
    using match_scan_append [of "(Map.empty, self)" "pre @ mid @ [b2]" post] by simp
  ultimately have "match_events self = snd (match_scan (Map.empty, self) (pre @ mid @ b2 # post))"
    using eq by (simp add: match_events_def scan)
  then show ?thesis using first pend eq by simp
qed

theorem second_begin_replaces_first_witness:
  "sort_key ts (events (loaded double_begin_log)) =
     [] @ double_begin_log ! 0 # [] @ double_begin_log ! 1 # [double_begin_log ! 2]
   \<and> phase (double_begin_log ! 0) = ''B'' \<and> phase (double_begin_log ! 1) = ''B''
   \<and> op_id (double_begin_log ! 1) = op_id (double_begin_log ! 0)
   \<and> match_events (loaded double_begin_log) =
       snd (match_scan (Map.empty, loaded double_begin_log) (tl double_begin_log))
   \<and> timeline (match_events (loaded double_begin_log)) =
       [\<lparr>op_name = ''cuMemAlloc'', op_start = 1, op_end = 2, op_duration = 1,
         op_depth = 1, op_details = []\<rparr>]"
proof -
  have s: "sort_key ts (events (loaded double_begin_log)) =
     [] @ double_begin_log ! 0 # [] @ double_begin_log ! 1 # [double_begin_log ! 2]"
    by (simp add: loaded_def init_analyzer_def double_begin_log_def)
  have m: "match_events (loaded double_begin_log) =
       snd (match_scan (Map.empty, loaded double_begin_log) (tl double_begin_log))"
    using second_begin_replaces_first [OF s] by (simp add: double_begin_log_def)
  have "timeline (snd (match_scan (Map.empty, loaded double_begin_log) (tl double_begin_log))) =
       [\<lparr>op_name = ''cuMemAlloc'', op_start = 1, op_end = 2, op_duration = 1,
         op_depth = 1, op_details = []\<rparr>]"
    by (simp add: double_begin_log_def loaded_def init_analyzer_def match_scan_def match_step_def Let_def)
  then show ?thesis using s m by (simp add: double_begin_log_def)
qed

subsection \<open>An end event without a pending begin event is dropped\<close>

text \<open>
  Claim C4.  An end event whose \<^verbatim>\<open>op_id\<close> has no pending begin event when it is scanned
  changes nothing: the pending dictionary, the timeline and the categories stay as they
  are.  When a log has such an end event, \<^verbatim>\<open>match_events\<close> adds strictly fewer operations
  to the timeline than the log has end events.
\<close>

theorem unmatched_end_is_dropped:
  assumes scan: "sort_key ts (events self) = pre @ e # post"
    and e: "phase e = ''E''"
    and unmatched: "fst (match_scan (Map.empty, self) pre) (op_id e) = None"
  shows "match_scan (Map.empty, self) (pre @ [e]) = match_scan (Map.empty, self) pre
         \<and> length (timeline (match_events self)) <
             length (timeline self) + length (filter (\<lambda>x. phase x = ''E'') (events self))"
proof -
  let ?s0 = "match_scan (Map.empty, self) pre"
  let ?isE = "\<lambda>x. phase x = ''E''"
  have drop: "match_scan (Map.empty, self) (pre @ [e]) = ?s0"
    using e unmatched by (simp add: match_scan_snoc match_step_unmatched_end)
  have "match_scan (Map.empty, self) (pre @ e # post) =
        match_scan (match_scan (Map.empty, self) (pre @ [e])) post"
    using match_scan_append [of "(Map.empty, self)" "pre @ [e]" post] by simp
  then have whole: "match_events self = snd (match_scan ?s0 post)"
    by (simp add: match_events_def scan drop)
  obtain m1 where m1: "timeline (snd ?s0) = timeline self @ m1"
    "length m1 \<le> length (filter ?isE pre)"
    using match_scan_timeline_grows [of "(Map.empty, self)" pre] by auto
  obtain m2 where m2: "timeline (snd (match_scan ?s0 post)) = timeline (snd ?s0) @ m2"
    "length m2 \<le> length (filter ?isE post)"
    using match_scan_timeline_grows [of ?s0 post] by auto
  have "length (filter ?isE (events self)) = length (filter ?isE (sort_key ts (events self)))"
    by (simp add: filter_sort_key_length)
  also have "\<dots> = length (filter ?isE pre) + 1 + length (filter ?isE post)"
    using e by (simp add: scan)
  finally have "length (timeline (match_events self)) <
      length (timeline self) + length (filter ?isE (events self))"
    using m1 m2 by (simp add: whole)
  then show ?thesis using drop by simp
qed

lemma match_events_at_most_one_operation_per_end:
  "length (timeline (match_events self)) \<le>
     length (timeline self) + length (filter (\<lambda>x. phase x = ''E'') (events self))"
proof -
  obtain m where "timeline (match_events self) = timeline self @ m"
    "length m \<le> length (filter (\<lambda>x. phase x = ''E'') (sort_key ts (events self)))"
    using match_scan_timeline_grows [of "(Map.empty, self)" "sort_key ts (events self)"]
    by (auto simp: match_events_def)
  then show ?thesis by (simp add: filter_sort_key_length)
qed

theorem unmatched_end_is_dropped_witness:
  "sort_key ts (events (loaded stray_end_log)) = [] @ hd stray_end_log # tl stray_end_log
   \<and> phase (hd stray_end_log) = ''E''
   \<and> fst (match_scan (Map.empty, loaded stray_end_log) []) (op_id (hd stray_end_log)) = None
   \<and> match_scan (Map.empty, loaded stray_end_log) [hd stray_end_log] = (Map.empty, loaded stray_end_log)
   \<and> length (timeline (match_events (loaded stray_end_log))) = 1
   \<and> length (filter (\<lambda>x. phase x = ''E'') (events (loaded stray_end_log))) = 2"
proof -
  have s: "sort_key ts (events (loaded stray_end_log)) = [] @ hd stray_end_log # tl stray_end_log"
    by (simp add: loaded_def init_analyzer_def stray_end_log_def)
  have p: "phase (hd stray_end_log) = ''E''"
    by (simp add: stray_end_log_def)
  have u: "fst (match_scan (Map.empty, loaded stray_end_log) []) (op_id (hd stray_end_log)) = None"
    by (simp add: match_scan_def)
  have d: "match_scan (Map.empty, loaded stray_end_log) [hd stray_end_log] = (Map.empty, loaded stray_end_log)"
    using unmatched_end_is_dropped [OF s p u] by (simp add: match_scan_def)
  have l: "length (timeline (match_events (loaded stray_end_log))) = 1"
    by (simp add: match_events_def stray_end_log_def loaded_def init_analyzer_def match_scan_def match_step_def Let_def)
  have c: "length (filter (\<lambda>x. phase x = ''E'') (events (loaded stray_end_log))) = 2"
    by (simp add: stray_end_log_def loaded_def init_analyzer_def)
  show ?thesis using s p u d l c by blast
qed

lemma match_step_pending_are_begins:
  assumes "\<forall>k b. fst st k = Some b \<longrightarrow> phase b = ''B'' \<and> op_id b = k"
  shows "\<forall>k b. fst (match_step st x) k = Some b \<longrightarrow> phase b = ''B'' \<and> op_id b = k"
  using assms by (auto simp: match_step_def Let_def split: option.splits if_splits)

lemma match_scan_pending_are_begins:
  assumes "\<forall>k b. fst st k = Some b \<longrightarrow> phase b = ''B'' \<and> op_id b = k"
  shows "\<forall>k b. fst (match_scan st xs) k = Some b \<longrightarrow> phase b = ''B'' \<and> op_id b = k"
  using assms
proof (induction xs arbitrary: st)
  case Nil
  then show ?case by (simp add: match_scan_Nil)
next
  case (Cons x xs)
  show ?case
    using Cons.IH [OF match_step_pending_are_begins [OF Cons.prems]]
    by (simp add: match_scan_Cons)
qed

subsection \<open>Which event each field of an operation comes from\<close>

text \<open>
  Claim C10.  When an end event \<open>e\<close> is scanned while \<open>b\<close> is pending under its \<^verbatim>\<open>op_id\<close>
  (so \<open>b\<close> is a begin event with the same \<^verbatim>\<open>op_id\<close>), the operation appended has the name
  and the details of \<open>e\<close>, the start and the depth of \<open>b\<close>, and it is filed under the
  category of the name of \<open>e\<close>; the name of \<open>b\<close> is not used.
\<close>

theorem operation_name_from_end_start_from_begin:
  assumes scan: "sort_key ts (events self) = pre @ e # post"
    and e: "phase e = ''E''"
    and pending: "fst (match_scan (Map.empty, self) pre) (op_id e) = Some b"
  shows "phase b = ''B'' \<and> op_id b = op_id e
         \<and> timeline (snd (match_scan (Map.empty, self) (pre @ [e]))) =
             timeline (snd (match_scan (Map.empty, self) pre)) @
             [\<lparr>op_name = name e, op_start = ts b, op_end = ts e,
               op_duration = ts e - ts b, op_depth = depth b, op_details = details e\<rparr>]
         \<and> categories (snd (match_scan (Map.empty, self) (pre @ [e]))) =
             (categories (snd (match_scan (Map.empty, self) pre)))
               (categorize (name e) \<mapsto>
                  (case categories (snd (match_scan (Map.empty, self) pre)) (categorize (name e)) of
                     None \<Rightarrow> [] | Some ops \<Rightarrow> ops) @
                  [\<lparr>op_name = name e, op_start = ts b, op_end = ts e,
                    op_duration = ts e - ts b, op_depth = depth b, op_details = details e\<rparr>])"
proof -
  have "\<forall>k b. fst (match_scan (Map.empty, self) pre) k = Some b \<longrightarrow> phase b = ''B'' \<and> op_id b = k"
    by (rule match_scan_pending_are_begins) simp
  then have "phase b = ''B'' \<and> op_id b = op_id e"
    using pending by blast
  then show ?thesis
    using e pending by (simp add: match_scan_snoc match_step_matched_end)
qed

theorem operation_name_from_end_witness:
  "sort_key ts (events (loaded renamed_end_log)) = [hd renamed_end_log] @ last renamed_end_log # []
   \<and> phase (last renamed_end_log) = ''E''
   \<and> fst (match_scan (Map.empty, loaded renamed_end_log) [hd renamed_end_log])
        (op_id (last renamed_end_log)) = Some (hd renamed_end_log)
   \<and> timeline (match_events (loaded renamed_end_log)) =
       [\<lparr>op_name = ''cuLaunchKernel'', op_start = 1, op_end = 1.5, op_duration = 0.5,
         op_depth = 2, op_details = [(''retval'', ''0'')]\<rparr>]
   \<and> categories (match_events (loaded renamed_end_log)) ''kernel'' =
       Some [\<lparr>op_name = ''cuLaunchKernel'', op_start = 1, op_end = 1.5, op_duration = 0.5,
         op_depth = 2, op_details = [(''retval'', ''0'')]\<rparr>]
   \<and> categories (match_events (loaded renamed_end_log)) ''memory_mgmt'' = None"
proof -
  have s: "sort_key ts (events (loaded renamed_end_log)) = [hd renamed_end_log] @ last renamed_end_log # []"
    by (simp add: loaded_def init_analyzer_def renamed_end_log_def)
  have p: "phase (last renamed_end_log) = ''E''"
    by (simp add: renamed_end_log_def)
  have u: "fst (match_scan (Map.empty, loaded renamed_end_log) [hd renamed_end_log])
        (op_id (last renamed_end_log)) = Some (hd renamed_end_log)"
    by (simp add: match_scan_def match_step_def renamed_end_log_def)
  have m: "match_events (loaded renamed_end_log) =
      snd (match_scan (Map.empty, loaded renamed_end_log) ([hd renamed_end_log] @ [last renamed_end_log]))"
    using s by (simp add: match_events_def)
  have c: "categorize ''cuLaunchKernel'' = ''kernel''"
    by (simp add: categorize_def)
  have i: "categories (snd (match_scan (Map.empty, loaded renamed_end_log) [hd renamed_end_log])) = Map.empty"
      "timeline (snd (match_scan (Map.empty, loaded renamed_end_log) [hd renamed_end_log])) = []"
    by (simp_all add: match_scan_def match_step_def renamed_end_log_def loaded_def init_analyzer_def)
  have ev: "name (last renamed_end_log) = ''cuLaunchKernel''" "ts (hd renamed_end_log) = 1"
      "ts (last renamed_end_log) = 1.5" "depth (hd renamed_end_log) = 2"
      "details (last renamed_end_log) = [(''retval'', ''0'')]"
    by (simp_all add: renamed_end_log_def)
  have th: "timeline (match_events (loaded renamed_end_log)) =
       [\<lparr>op_name = ''cuLaunchKernel'', op_start = 1, op_end = 1.5, op_duration = 0.5,
         op_depth = 2, op_details = [(''retval'', ''0'')]\<rparr>]
     \<and> categories (match_events (loaded renamed_end_log)) =
       [''kernel'' \<mapsto> [\<lparr>op_name = ''cuLaunchKernel'', op_start = 1, op_end = 1.5, op_duration = 0.5,
         op_depth = 2, op_details = [(''retval'', ''0'')]\<rparr>]]"
    using operation_name_from_end_start_from_begin [OF s p u]
    by (simp add: m c i ev)
  then show ?thesis
    using s p u by simp
qed

section \<open>The exports\<close>




lemma py_int_floor: "0 \<le> x \<Longrightarrow> py_int x = \<lfloor>x\<rfloor>"
  by (simp add: py_int_def)

lemma match_step_durations:
  assumes pend: "\<forall>k b. fst st k = Some b \<longrightarrow> ts b \<le> ts x"
    and dur: "list_all (\<lambda>op. 0 \<le> op_duration op) (timeline (snd st))"
  shows "list_all (\<lambda>op. 0 \<le> op_duration op) (timeline (snd (match_step st x)))"
  using assms by (auto simp: match_step_def Let_def split: option.splits)

lemma match_step_pending_from:
  assumes "fst (match_step st x) k = Some b"
  shows "fst st k = Some b \<or> b = x"
  using assms by (auto simp: match_step_def Let_def split: option.splits if_splits)

lemma match_scan_durations:
  assumes "sorted (map ts xs)"
    and "\<forall>k b. fst st k = Some b \<longrightarrow> (\<forall>x\<in>set xs. ts b \<le> ts x)"
    and "list_all (\<lambda>op. 0 \<le> op_duration op) (timeline (snd st))"
  shows "list_all (\<lambda>op. 0 \<le> op_duration op) (timeline (snd (match_scan st xs)))"
  using assms
proof (induction xs arbitrary: st)
  case Nil
  then show ?case by (simp add: match_scan_Nil)
next
  case (Cons x xs)
  have srt: "sorted (map ts xs)" and le: "\<forall>y\<in>set xs. ts x \<le> ts y"
    using Cons.prems(1) by simp_all
  have d: "list_all (\<lambda>op. 0 \<le> op_duration op) (timeline (snd (match_step st x)))"
    using Cons.prems(2,3) by (intro match_step_durations) simp_all
  have p: "\<forall>k b. fst (match_step st x) k = Some b \<longrightarrow> (\<forall>y\<in>set xs. ts b \<le> ts y)"
  proof (intro allI impI)
    fix k b
    assume "fst (match_step st x) k = Some b"
    then have "fst st k = Some b \<or> b = x" by (rule match_step_pending_from)
    then show "\<forall>y\<in>set xs. ts b \<le> ts y"
      using Cons.prems(2) le by auto
  qed
  show ?case
    using Cons.IH [OF srt p d] by (simp add: match_scan_Cons)
qed

lemma match_events_durations:
  "list_all (\<lambda>op. 0 \<le> op_duration op) (timeline (match_events (loaded evs)))"
proof -
  have "list_all (\<lambda>op. 0 \<le> op_duration op)
          (timeline (snd (match_scan (Map.empty, loaded evs) (sort_key ts (events (loaded evs))))))"
    by (rule match_scan_durations) (simp_all add: loaded_def init_analyzer_def)
  then show ?thesis by (simp add: match_events_def)
qed

subsection \<open>The flamegraph count\<close>

text \<open>
  The exponent of a number is fixed by the two powers of two around it, which is how
  \<^const>\<open>double_round\<close> is computed at a given number.
\<close>

lemma floor_log2_eq:
  assumes "2 powi e \<le> x" and "x < 2 powi (e + 1)"
  shows "\<lfloor>log 2 x\<rfloor> = e"
proof -
  have pos: "0 < x"
  proof -
    have "(0::real) < 2 powi e" by simp
    then show ?thesis using assms(1) by linarith
  qed
  have lo_eq: "(2::real) powr real_of_int e = 2 powi e"
    by (rule powr_real_of_int') simp_all
  have hi_eq: "(2::real) powr real_of_int (e + 1) = 2 powi (e + 1)"
    by (rule powr_real_of_int') simp_all
  have "2 powr real_of_int e \<le> x \<and> x < 2 powr real_of_int (e + 1)"
    using assms by (simp only: lo_eq hi_eq)
  then show ?thesis
    using pos floor_log_eq_powr_iff [of x 2 e] by simp
qed

lemma round_half_even_nonneg: "0 \<le> r \<Longrightarrow> 0 \<le> round_half_even r"
  by (simp add: round_half_even_def Let_def)

lemma double_round_nonneg: "0 \<le> x \<Longrightarrow> 0 \<le> double_round x"
  by (simp add: double_round_def round_half_even_nonneg)

lemma flamegraph_line_finite:
  "\<bar>double_round (op_duration op * 1000000)\<bar> < 2 ^ 1024 \<Longrightarrow>
   flamegraph_line op =
     Inr (''CUDA;'' @ op_name op @ '' '' @
          str_int (py_int (double_round (op_duration op * 1000000))) @ [CHR 0x0A])"
  by (simp add: flamegraph_line_def float_mul_def int_of_float_def Let_def)

lemma flamegraph_line_overflow:
  "2 ^ 1024 \<le> \<bar>double_round (op_duration op * 1000000)\<bar> \<Longrightarrow>
   flamegraph_line op = Inl OverflowError"
  by (simp add: flamegraph_line_def float_mul_def int_of_float_def Let_def)

lemma flamegraph_line_cases:
  "flamegraph_line op = Inl OverflowError \<or> (\<exists>line. flamegraph_line op = Inr line)"
  by (cases "2 ^ 1024 \<le> \<bar>double_round (op_duration op * 1000000)\<bar>")
     (simp_all add: flamegraph_line_overflow flamegraph_line_finite)

lemma write_lines_finite:
  "list_all (\<lambda>op. \<bar>double_round (op_duration op * 1000000)\<bar> < 2 ^ 1024) ops \<Longrightarrow>
   write_lines ops =
     Inr (map (\<lambda>op. ''CUDA;'' @ op_name op @ '' '' @
                    str_int (py_int (double_round (op_duration op * 1000000))) @ [CHR 0x0A]) ops)"
  by (induction ops) (simp_all add: flamegraph_line_finite)

lemma write_lines_overflow:
  "list_ex (\<lambda>op. 2 ^ 1024 \<le> \<bar>double_round (op_duration op * 1000000)\<bar>) ops \<Longrightarrow>
   write_lines ops = Inl OverflowError"
proof (induction ops)
  case Nil
  then show ?case by simp
next
  case (Cons op ops)
  show ?case
  proof (cases "2 ^ 1024 \<le> \<bar>double_round (op_duration op * 1000000)\<bar>")
    case True
    then show ?thesis by (simp add: flamegraph_line_overflow)
  next
    case False
    then have "write_lines ops = Inl OverflowError"
      using Cons by simp
    then show ?thesis
      using flamegraph_line_cases [of op] by (auto split: sum.splits)
  qed
qed

lemma str_nat_digits: "set (str_nat n) \<subseteq> set ''0123456789''"
proof (induction n rule: str_nat.induct)
  case (1 n)
  have d: "\<And>k. k < 10 \<Longrightarrow> ''0123456789'' ! k \<in> set ''0123456789''"
    by (rule nth_mem) simp
  show ?case
  proof (cases "n < 10")
    case True
    then show ?thesis using d [of n] by (subst str_nat.simps) simp
  next
    case False
    have "n mod 10 < 10" by simp
    then have "''0123456789'' ! (n mod 10) \<in> set ''0123456789''" by (rule d)
    then show ?thesis using False "1.IH" by (subst str_nat.simps) simp
  qed
qed

lemma count_list_0_iff_notin: "x \<notin> set xs \<Longrightarrow> count_list xs x = 0"
  by (simp add: count_list_0_iff)

lemma str_int_no_newline: "count_list (str_int i) (CHR 0x0A) = 0"
proof -
  have "CHR 0x0A \<notin> set ''0123456789''" by simp
  then have "\<And>n. CHR 0x0A \<notin> set (str_nat n)" using str_nat_digits by blast
  then show ?thesis by (simp add: str_int_def count_list_0_iff)
qed

lemma flamegraph_line_newlines:
  assumes "flamegraph_line op = Inr line"
  shows "count_list line (CHR 0x0A) = count_list (op_name op) (CHR 0x0A) + 1
         \<and> last line = CHR 0x0A"
proof -
  have "\<exists>count. line = ''CUDA;'' @ op_name op @ '' '' @ str_int count @ [CHR 0x0A]"
    using assms by (auto simp: flamegraph_line_def Let_def split: sum.splits)
  then show ?thesis by (auto simp: str_int_no_newline)
qed

lemma double_round_normal:
  assumes "2 powi e \<le> \<bar>x\<bar>" and "\<bar>x\<bar> < 2 powi (e + 1)" and "- 1022 \<le> e"
  shows "double_round x = of_int (round_half_even (x / 2 powi (e - 52))) * 2 powi (e - 52)"
proof -
  have "\<lfloor>log 2 \<bar>x\<bar>\<rfloor> = e"
    using assms(1,2) by (rule floor_log2_eq)
  then have u: "ulp_exponent x = e - 52"
    using assms(3) by (simp add: ulp_exponent_def)
  have "(0::real) < 2 powi e" by simp
  then have "0 < \<bar>x\<bar>" using assms(1) by linarith
  then have "x \<noteq> 0" by simp
  then show ?thesis by (simp add: double_round_def u)
qed

lemma double_round_half_second: "double_round (0.5 * 1000000) = 500000"
proof -
  have "double_round (0.5 * 1000000) =
        of_int (round_half_even (0.5 * 1000000 / 2 powi (18 - 52))) * 2 powi (18 - 52)"
    by (rule double_round_normal) simp_all
  then show ?thesis by (simp add: round_half_even_def Let_def)
qed

lemma double_round_three_hundredths:
  "double_round (1080863910568919 / 2 ^ 55 * 1000000) = 30000"
proof -
  have "double_round (1080863910568919 / 2 ^ 55 * 1000000) =
        of_int (round_half_even (1080863910568919 / 2 ^ 55 * 1000000 / 2 powi (14 - 52))) *
        2 powi (14 - 52)"
    by (rule double_round_normal) simp_all
  then show ?thesis by (simp add: round_half_even_def Let_def)
qed

lemma double_round_huge: "double_round (2 ^ 1010 * 1000000) = 2 ^ 1010 * 1000000"
proof -
  have "double_round (2 ^ 1010 * 1000000) =
        of_int (round_half_even (2 ^ 1010 * 1000000 / 2 powi (1029 - 52))) * 2 powi (1029 - 52)"
    by (rule double_round_normal) simp_all
  then show ?thesis by (simp add: round_half_even_def Let_def)
qed

lemma write_lines_length: "write_lines ops = Inr written \<Longrightarrow> length written = length ops"
  by (induction ops arbitrary: written) (auto split: sum.splits)

text \<open>
  Claim C7, as amended.  \<^verbatim>\<open>generate_flamegraph_data\<close> writes one record per operation of
  the timeline, in the order of the starts: \<open>CUDA;\<close> and the name, a space, the count and a
  line feed, which is one line when the name has no line feed.  The count is
  \<^verbatim>\<open>int(duration * 1000000)\<close> on floats: the product rounded to the nearest float and then
  truncated, which for a duration that is not negative is the floor of the rounded
  product (the operations that \<^verbatim>\<open>match_events\<close> builds from a loaded log have no negative
  duration).  This holds when every rounded product is finite; when one is an infinity
  the export raises \<^verbatim>\<open>OverflowError\<close> instead.
\<close>

theorem flamegraph_count_is_rounded_product:
  "(list_all (\<lambda>op. \<bar>double_round (op_duration op * 1000000)\<bar> < 2 ^ 1024) (timeline self) \<longrightarrow>
      generate_flamegraph_data self =
        Inr (map (\<lambda>op. ''CUDA;'' @ op_name op @ '' '' @
                       str_int (py_int (double_round (op_duration op * 1000000))) @ [CHR 0x0A])
              (sort_key op_start (timeline self))))
   \<and> (list_all (\<lambda>op. \<bar>double_round (op_duration op * 1000000)\<bar> < 2 ^ 1024
                     \<and> 0 \<le> op_duration op) (timeline self) \<longrightarrow>
      generate_flamegraph_data self =
        Inr (map (\<lambda>op. ''CUDA;'' @ op_name op @ '' '' @
                       str_int \<lfloor>double_round (op_duration op * 1000000)\<rfloor> @ [CHR 0x0A])
              (sort_key op_start (timeline self))))
   \<and> (list_ex (\<lambda>op. 2 ^ 1024 \<le> \<bar>double_round (op_duration op * 1000000)\<bar>) (timeline self) \<longrightarrow>
      generate_flamegraph_data self = Inl OverflowError)
   \<and> (generate_flamegraph_data self = Inr written \<longrightarrow> length written = length (timeline self))
   \<and> (flamegraph_line op = Inr line \<longrightarrow>
        count_list line (CHR 0x0A) = count_list (op_name op) (CHR 0x0A) + 1
        \<and> last line = CHR 0x0A)
   \<and> list_all (\<lambda>op. 0 \<le> op_duration op) (timeline (match_events (loaded evs)))"
proof -
  let ?ops = "sort_key op_start (timeline self)"
  let ?fin = "\<lambda>op. \<bar>double_round (op_duration op * 1000000)\<bar> < 2 ^ 1024"
  have general: "generate_flamegraph_data self =
        Inr (map (\<lambda>op. ''CUDA;'' @ op_name op @ '' '' @
                       str_int (py_int (double_round (op_duration op * 1000000))) @ [CHR 0x0A]) ?ops)"
    if "list_all ?fin (timeline self)"
  proof -
    have "list_all ?fin ?ops" using that by (simp add: list_all_iff)
    then show ?thesis by (simp add: generate_flamegraph_data_def write_lines_finite)
  qed
  have floor_form: "generate_flamegraph_data self =
        Inr (map (\<lambda>op. ''CUDA;'' @ op_name op @ '' '' @
                       str_int \<lfloor>double_round (op_duration op * 1000000)\<rfloor> @ [CHR 0x0A]) ?ops)"
    if a: "list_all (\<lambda>op. ?fin op \<and> 0 \<le> op_duration op) (timeline self)"
  proof -
    have f: "list_all ?fin (timeline self)" using a by (simp add: list_all_iff)
    have "map (\<lambda>op. ''CUDA;'' @ op_name op @ '' '' @
                       str_int (py_int (double_round (op_duration op * 1000000))) @ [CHR 0x0A]) ?ops =
          map (\<lambda>op. ''CUDA;'' @ op_name op @ '' '' @
                       str_int \<lfloor>double_round (op_duration op * 1000000)\<rfloor> @ [CHR 0x0A]) ?ops"
    proof (rule map_cong)
      show "?ops = ?ops" by simp
    next
      fix op assume "op \<in> set ?ops"
      then have "0 \<le> op_duration op" using a by (simp add: list_all_iff)
      then have "0 \<le> double_round (op_duration op * 1000000)"
        by (intro double_round_nonneg) simp
      then show "''CUDA;'' @ op_name op @ '' '' @
                       str_int (py_int (double_round (op_duration op * 1000000))) @ [CHR 0x0A] =
                 ''CUDA;'' @ op_name op @ '' '' @
                       str_int \<lfloor>double_round (op_duration op * 1000000)\<rfloor> @ [CHR 0x0A]"
        by (simp add: py_int_floor)
    qed
    then show ?thesis using general [OF f] by simp
  qed
  have overflow: "generate_flamegraph_data self = Inl OverflowError"
    if "list_ex (\<lambda>op. 2 ^ 1024 \<le> \<bar>double_round (op_duration op * 1000000)\<bar>) (timeline self)"
  proof -
    have "list_ex (\<lambda>op. 2 ^ 1024 \<le> \<bar>double_round (op_duration op * 1000000)\<bar>) ?ops"
      using that by (simp add: list_ex_iff)
    then show ?thesis by (simp add: generate_flamegraph_data_def write_lines_overflow)
  qed
  have len: "length written = length (timeline self)"
    if "generate_flamegraph_data self = Inr written"
    using that write_lines_length [of ?ops written] by (simp add: generate_flamegraph_data_def)
  show ?thesis
    using general floor_form overflow len flamegraph_line_newlines [of op line]
      match_events_durations [of evs]
    by blast
qed

text \<open>The timelines of three logs, and the claim at the first and the third.\<close>

lemma two_line_timeline:
  "timeline (match_events (loaded two_line_log)) =
      [\<lparr>op_name = ''unknown'', op_start = 0, op_end = 0.5, op_duration = 0.5,
        op_depth = 0, op_details = []\<rparr>]"
  by (simp add: match_events_def loaded_def init_analyzer_def two_line_log_def match_scan_def
      match_step_def Let_def)

lemma huge_duration_timeline:
  "timeline (match_events (loaded huge_duration_log)) =
      [\<lparr>op_name = ''cuMemAlloc'', op_start = 0, op_end = 2 ^ 1010, op_duration = 2 ^ 1010,
        op_depth = 0, op_details = []\<rparr>]"
  by (simp add: match_events_def loaded_def init_analyzer_def huge_duration_log_def match_scan_def
      match_step_def Let_def)

lemma rounding_timeline:
  "timeline (match_events (loaded rounding_log)) =
      [\<lparr>op_name = ''cuMemAlloc'', op_start = 0, op_end = 1080863910568919 / 2 ^ 55,
        op_duration = 1080863910568919 / 2 ^ 55, op_depth = 0, op_details = []\<rparr>]"
  by (simp add: match_events_def loaded_def init_analyzer_def rounding_log_def match_scan_def
      match_step_def Let_def)

theorem flamegraph_count_is_rounded_product_witness:
  "list_all (\<lambda>op. \<bar>double_round (op_duration op * 1000000)\<bar> < 2 ^ 1024 \<and> 0 \<le> op_duration op)
     (timeline (match_events (loaded two_line_log)))
   \<and> generate_flamegraph_data (match_events (loaded two_line_log)) =
       Inr [''CUDA;unknown 500000'' @ [CHR 0x0A]]
   \<and> list_ex (\<lambda>op. 2 ^ 1024 \<le> \<bar>double_round (op_duration op * 1000000)\<bar>)
       (timeline (match_events (loaded huge_duration_log)))
   \<and> generate_flamegraph_data (match_events (loaded huge_duration_log)) = Inl OverflowError"
proof -
  have r: "double_round 500000 = 500000"
    using double_round_half_second by simp
  have a: "list_all (\<lambda>op. \<bar>double_round (op_duration op * 1000000)\<bar> < 2 ^ 1024 \<and> 0 \<le> op_duration op)
     (timeline (match_events (loaded two_line_log)))"
    using r by (simp add: two_line_timeline)
  have s: "str_int 500000 = ''500000''"
    by (simp add: str_int_def str_nat.simps)
  have b: "generate_flamegraph_data (match_events (loaded two_line_log)) =
       Inr [''CUDA;unknown 500000'' @ [CHR 0x0A]]"
  proof -
    have "generate_flamegraph_data (match_events (loaded two_line_log)) =
        Inr (map (\<lambda>op. ''CUDA;'' @ op_name op @ '' '' @
                       str_int \<lfloor>double_round (op_duration op * 1000000)\<rfloor> @ [CHR 0x0A])
              (sort_key op_start (timeline (match_events (loaded two_line_log)))))"
      using flamegraph_count_is_rounded_product [of "match_events (loaded two_line_log)"] a
      by blast
    then show ?thesis by (simp add: two_line_timeline r s)
  qed
  have c: "list_ex (\<lambda>op. 2 ^ 1024 \<le> \<bar>double_round (op_duration op * 1000000)\<bar>)
       (timeline (match_events (loaded huge_duration_log)))"
    using double_round_huge by (simp add: huge_duration_timeline)
  have d: "generate_flamegraph_data (match_events (loaded huge_duration_log)) = Inl OverflowError"
    using flamegraph_count_is_rounded_product [of "match_events (loaded huge_duration_log)"] c
    by blast
  show ?thesis using a b c d by blast
qed

text \<open>
  The claim as written takes the floor of the duration times 1000000.  For the pair of
  0.03 seconds the float product is rounded up to 30000.0 and the count written is
  30000, while the floor of the duration times 1000000 is 29999.
\<close>

theorem flamegraph_count_floor_counterexample:
  "timeline (match_events (loaded rounding_log)) =
      [\<lparr>op_name = ''cuMemAlloc'', op_start = 0, op_end = 1080863910568919 / 2 ^ 55,
        op_duration = 1080863910568919 / 2 ^ 55, op_depth = 0, op_details = []\<rparr>]
   \<and> generate_flamegraph_data (match_events (loaded rounding_log)) =
       Inr [''CUDA;cuMemAlloc 30000'' @ [CHR 0x0A]]
   \<and> \<lfloor>(1080863910568919 / 2 ^ 55 :: real) * 1000000\<rfloor> = 29999
   \<and> str_int 29999 = ''29999''"
proof -
  have r: "double_round (1080863910568919 / 36028797018963968 * 1000000) = 30000"
    using double_round_three_hundredths by simp
  have s: "str_int 30000 = ''30000''" "str_int 29999 = ''29999''"
    by (simp_all add: str_int_def str_nat.simps)
  have g: "generate_flamegraph_data (match_events (loaded rounding_log)) =
       Inr [''CUDA;cuMemAlloc 30000'' @ [CHR 0x0A]]"
    using r by (simp add: generate_flamegraph_data_def rounding_timeline flamegraph_line_def
        float_mul_def int_of_float_def py_int_def s Let_def)
  have f: "\<lfloor>(1080863910568919 / 2 ^ 55 :: real) * 1000000\<rfloor> = 29999"
    by simp
  show ?thesis using g f s by (simp add: rounding_timeline)
qed

section \<open>The ASCII timeline\<close>

lemma paint_cells_fill:
  assumes "0 \<le> a" and "a \<le> b" and "b \<le> int (length lane)"
  shows "paint_cells lane [a..b - 1] symbol =
           Inr (take (nat a) lane @ replicate (nat (b - a)) symbol @ drop (nat b) lane)"
  using assms
proof (induction "nat (b - a)" arbitrary: a lane)
  case 0
  then have "a = b" by simp
  then show ?case by simp
next
  case (Suc n)
  then have ab: "a < b" by linarith
  have range: "[a..b - 1] = a # [a + 1..b - 1]"
    using ab by (simp add: upto_rec1)
  have len: "nat a < length lane"
    using Suc.prems ab by linarith
  have set: "set_item lane a symbol = Inr (lane[nat a := symbol])"
    using Suc.prems ab by (simp add: set_item_def)
  have n: "n = nat (b - (a + 1))"
    using Suc.hyps(2) by linarith
  have ih: "paint_cells (lane[nat a := symbol]) [a + 1..b - 1] symbol =
      Inr (take (nat (a + 1)) (lane[nat a := symbol]) @ replicate (nat (b - (a + 1))) symbol @
           drop (nat b) (lane[nat a := symbol]))"
    using Suc.hyps(1) [OF n, of "lane[nat a := symbol]"] Suc.prems ab by simp
  have t: "take (nat (a + 1)) (lane[nat a := symbol]) = take (nat a) lane @ [symbol]"
  proof -
    have "nat (a + 1) = Suc (nat a)" using Suc.prems by linarith
    then show ?thesis using len by (simp add: take_Suc_conv_app_nth)
  qed
  have d: "drop (nat b) (lane[nat a := symbol]) = drop (nat b) lane"
    using ab Suc.prems by simp
  have r: "replicate (nat (b - a)) symbol = symbol # replicate (nat (b - (a + 1))) symbol"
    using Suc.hyps(2) n by (metis replicate_Suc)
  have "paint_cells lane [a..b - 1] symbol =
        paint_cells (lane[nat a := symbol]) [a + 1..b - 1] symbol"
    using Suc.prems ab set by (simp add: range)
  then show ?case by (simp add: ih t d r)
qed

text \<open>
  An operation that starts before the end of the time range, in a lane of 80 columns,
  gets at least the column of its start: the start column is below 80, and the end
  column used is to the right of it, also when the two positions computed are equal.
\<close>

lemma paint_op_paints_start_column:
  assumes tot: "0 < dur"
    and s0: "start_time \<le> op_start op"
    and se: "op_start op \<le> op_end op"
    and lt: "op_start op < start_time + dur"
    and len: "length lane = 80"
  shows "\<exists>lane' col. paint_op start_time dur lane op = Inr lane'
           \<and> col = py_int (((op_start op - start_time) / dur) * 80)
           \<and> 0 \<le> col \<and> col < 80
           \<and> lane' ! nat col =
               (case category_symbols (categorize (op_name op)) of Some s \<Rightarrow> s | None \<Rightarrow> 183)"
proof -
  let ?x = "((op_start op - start_time) / dur) * 80"
  let ?y = "((op_end op - start_time) / dur) * 80"
  let ?sym = "case category_symbols (categorize (op_name op)) of Some s \<Rightarrow> s | None \<Rightarrow> 183"
  have x0: "0 \<le> ?x" using tot s0 by simp
  have x80: "?x < 80" using tot lt by (simp add: field_simps)
  have xy: "?x \<le> ?y" using tot se by (simp add: divide_right_mono)
  have y0: "0 \<le> ?y" using x0 xy by linarith
  define a where "a = py_int ?x"
  define e0 where "e0 = py_int ?y"
  define e1 where "e1 = (if a = e0 then a + 1 else e0)"
  define b where "b = min e1 80"
  have a: "a = \<lfloor>?x\<rfloor>" using x0 by (simp add: a_def py_int_def)
  have e0: "e0 = \<lfloor>?y\<rfloor>" using y0 by (simp add: e0_def py_int_def)
  have a0: "0 \<le> a" using x0 by (simp add: a)
  have a80: "a < 80" using x80 by (simp add: a floor_less_iff)
  have "a \<le> e0" using xy by (simp add: a e0 floor_mono)
  then have "a < e1" by (simp add: e1_def)
  then have ab: "a < b" and b80: "b \<le> int (length lane)"
    using a80 len by (simp_all add: b_def)
  have paint: "paint_cells lane [a..b - 1] ?sym =
      Inr (take (nat a) lane @ replicate (nat (b - a)) ?sym @ drop (nat b) lane)"
    using a0 ab b80 by (intro paint_cells_fill) simp_all
  have op: "paint_op start_time dur lane op = paint_cells lane [a..b - 1] ?sym"
    using tot by (simp add: paint_op_def Let_def timeline_width_def a_def e0_def e1_def b_def)
  have "(take (nat a) lane @ replicate (nat (b - a)) ?sym @ drop (nat b) lane) ! nat a = ?sym"
  proof -
    have "length (take (nat a) lane) = nat a" using a80 a0 len by simp
    moreover have "0 < nat (b - a)" using ab by simp
    ultimately show ?thesis
      by (metis append_Cons nth_append_length replicate_Suc Suc_pred)
  qed
  then show ?thesis using op paint a0 a80 by (simp add: a_def)
qed

text \<open>The lane of the log \<^const>\<open>zero_width_end_log\<close>, step by step.\<close>

lemma zero_width_end_timeline: "timeline (match_events (loaded zero_width_end_log)) =
   [\<lparr>op_name = ''cuMemAlloc'', op_start = 0, op_end = 1, op_duration = 1, op_depth = 0, op_details = []\<rparr>,
    \<lparr>op_name = ''cuLaunchKernel'', op_start = 1, op_end = 1, op_duration = 0, op_depth = 0, op_details = []\<rparr>]"
  by (simp add: match_events_def loaded_def init_analyzer_def zero_width_end_log_def match_scan_def match_step_def Let_def)

lemma paint_op_zero_width_at_end: "paint_op 0 1 lane \<lparr>op_name = ''cuLaunchKernel'', op_start = 1, op_end = 1, op_duration = 0, op_depth = 0, op_details = []\<rparr> = Inr lane"
  by (simp add: paint_op_def py_int_def timeline_width_def Let_def)

lemma paint_op_whole_lane: "paint_op 0 1 (replicate 80 32) \<lparr>op_name = ''cuMemAlloc'', op_start = 0, op_end = 1, op_duration = 1, op_depth = 0, op_details = []\<rparr> = Inr (replicate 80 9608)"
proof -
  have "paint_cells (replicate 80 32) [0..80 - 1] 9608 =
      Inr (take (nat 0) (replicate 80 32) @ replicate (nat (80 - 0)) 9608 @ drop (nat 80) (replicate 80 32))"
    by (rule paint_cells_fill) simp_all
  then show ?thesis
    by (simp add: paint_op_def py_int_def timeline_width_def Let_def categorize_def category_symbols_def)
qed

text \<open>
  Claim C8 does not hold for an operation that starts where the time range ends.  In the
  log \<^const>\<open>zero_width_end_log\<close> the total duration is 1 second, and the second operation
  starts and ends at 1.0: its start and end columns are both 80, the end column becomes
  81, and \<^verbatim>\<open>range(80, min(81, 80))\<close> is empty.  The lane of depth 0 holds the symbol of
  the first operation (U+2588) in all 80 columns and the symbol of the second operation
  (U+25CF, 9679) in none.
\<close>

theorem ascii_timeline_misses_operation_at_end:
  "timeline (match_events (loaded zero_width_end_log)) =
     [\<lparr>op_name = ''cuMemAlloc'', op_start = 0, op_end = 1, op_duration = 1, op_depth = 0,
       op_details = []\<rparr>,
      \<lparr>op_name = ''cuLaunchKernel'', op_start = 1, op_end = 1, op_duration = 0, op_depth = 0,
       op_details = []\<rparr>]
   \<and> category_symbols (categorize ''cuLaunchKernel'') = Some 9679
   \<and> print_ascii_timeline (match_events (loaded zero_width_end_log)) =
       Inr (Lanes 1 [(0, replicate 80 9608)])
   \<and> 9679 \<notin> set (replicate 80 (9608 :: codepoint))"
proof -
  have "category_symbols (categorize ''cuLaunchKernel'') = Some 9679"
    by (simp add: categorize_def category_symbols_def)
  moreover have "print_ascii_timeline (match_events (loaded zero_width_end_log)) =
       Inr (Lanes 1 [(0, replicate 80 9608)])"
    by (simp add: print_ascii_timeline_def zero_width_end_timeline Let_def paint_op_whole_lane
        paint_op_zero_width_at_end timeline_width_def)
  ultimately show ?thesis
    by (simp add: zero_width_end_timeline)
qed

section \<open>Finding the library\<close>

lemma split_from_not_Nil: "split_from sep acc s \<noteq> []"
  by (induction sep acc s rule: split_from.induct) simp_all

lemma split_from_many:
  "sep \<noteq> [] \<Longrightarrow> (Suc 0 < length (split_from sep acc s)) = str_in sep s"
proof (induction sep acc s rule: split_from.induct)
  case (1 sep acc)
  then show ?case by simp
next
  case (2 sep acc c cs)
  show ?case
  proof (cases "startswith (c # cs) sep")
    case True
    have "0 < length (split_from sep [] (drop (length sep) (c # cs)))"
      using split_from_not_Nil by blast
    then show ?thesis using True "2.prems" by simp
  next
    case False
    then show ?thesis using "2.IH"(2) "2.prems" by simp
  qed
qed

lemma py_split_many: "sep \<noteq> [] \<Longrightarrow> (Suc 0 < length (py_split s sep)) = str_in sep s"
  by (simp add: py_split_def split_from_many)

lemma scan_ldconfig_Some:
  "(\<exists>path. scan_ldconfig lines = Some path) =
     list_ex (\<lambda>line. str_in ''libcuda.so'' line \<and> str_in ''=>'' line) lines"
  by (induction lines) (simp_all add: Let_def py_split_many)

lemma find_Some_list_ex: "(\<exists>x. find P xs = Some x) = list_ex P xs"
  by (induction xs) simp_all

text \<open>
  Claim C9.  When no known path exists and the linker cache does not list the library
  (or \<^verbatim>\<open>ldconfig\<close> cannot be run), \<^verbatim>\<open>find_libcuda_path\<close> raises
  \<^const>\<open>LibraryNotFoundError\<close> (in the source the exception
  \<^verbatim>\<open>RuntimeError("Could not find libcuda.so")\<close>), and \<^verbatim>\<open>run\<close> ends with that error before
  the rest of the session starts.  When a known path exists or the linker cache lists
  the library, a path is returned, no error is raised and the session goes on with that
  path.
\<close>

theorem find_libcuda_path_error_iff_unresolved:
  "(\<not> list_ex path_exists possible_paths \<and> \<not> ldconfig_lists ldconfig \<longrightarrow>
      find_libcuda_path path_exists ldconfig = Inl LibraryNotFoundError
      \<and> run path_exists ldconfig trace_session = Inl LibraryNotFoundError)
   \<and> (list_ex path_exists possible_paths \<or> ldconfig_lists ldconfig \<longrightarrow>
      (\<exists>path. find_libcuda_path path_exists ldconfig = Inr path
         \<and> run path_exists ldconfig trace_session = Inr (trace_session path)))"
proof (intro conjI impI)
  assume no: "\<not> list_ex path_exists possible_paths \<and> \<not> ldconfig_lists ldconfig"
  then have f: "find path_exists possible_paths = None"
    using find_Some_list_ex [of path_exists possible_paths] by (cases "find path_exists possible_paths") auto
  have e: "find_libcuda_path path_exists ldconfig = Inl LibraryNotFoundError"
  proof (cases ldconfig)
    case None
    then show ?thesis by (simp add: find_libcuda_path_def f)
  next
    case (Some stdout)
    then have "\<not> (\<exists>path. scan_ldconfig (py_split stdout [CHR 0x0A]) = Some path)"
      using no by (simp add: ldconfig_lists_def scan_ldconfig_Some)
    then show ?thesis using Some by (simp add: find_libcuda_path_def f)
  qed
  show "find_libcuda_path path_exists ldconfig = Inl LibraryNotFoundError"
    by (rule e)
  show "run path_exists ldconfig trace_session = Inl LibraryNotFoundError"
    by (simp add: run_def e)
next
  assume yes: "list_ex path_exists possible_paths \<or> ldconfig_lists ldconfig"
  have "\<exists>path. find_libcuda_path path_exists ldconfig = Inr path"
  proof (cases "find path_exists possible_paths")
    case (Some path)
    then show ?thesis by (simp add: find_libcuda_path_def)
  next
    case None
    then have "\<not> list_ex path_exists possible_paths"
      using find_Some_list_ex [of path_exists possible_paths] by simp
    then have l: "ldconfig_lists ldconfig" using yes by simp
    then obtain stdout where s: "ldconfig = Some stdout"
      by (cases ldconfig) (simp_all add: ldconfig_lists_def)
    then obtain path where "scan_ldconfig (py_split stdout [CHR 0x0A]) = Some path"
      using l scan_ldconfig_Some [of "py_split stdout [CHR 0x0A]"] by (auto simp: ldconfig_lists_def)
    then show ?thesis using None s by (simp add: find_libcuda_path_def)
  qed
  then obtain path where p: "find_libcuda_path path_exists ldconfig = Inr path" by blast
  then have "run path_exists ldconfig trace_session = Inr (trace_session path)"
    by (simp add: run_def)
  then show "\<exists>path. find_libcuda_path path_exists ldconfig = Inr path
         \<and> run path_exists ldconfig trace_session = Inr (trace_session path)"
    using p by blast
qed

lemma ldconfig_sample_lines: "py_split ldconfig_sample [CHR 0x0A] =
   [''2 libs found in cache'', CHR 0x09 # ''libcuda.so.1 (libc6,x86-64) => /usr/lib/wsl/lib/libcuda.so.1'', []]"
  by (simp add: ldconfig_sample_def py_split_def)

lemma ldconfig_sample_parts: "py_split (CHR 0x09 # ''libcuda.so.1 (libc6,x86-64) => /usr/lib/wsl/lib/libcuda.so.1'') ''=>'' =
    [CHR 0x09 # ''libcuda.so.1 (libc6,x86-64) '', '' /usr/lib/wsl/lib/libcuda.so.1'']"
  by (simp add: py_split_def)

lemma ldconfig_sample_found: "find_libcuda_path (\<lambda>p. False) (Some ldconfig_sample) = Inr ''/usr/lib/wsl/lib/libcuda.so.1''"
  by (simp add: find_libcuda_path_def possible_paths_def ldconfig_sample_lines ldconfig_sample_parts Let_def py_strip_def is_space_def)

theorem find_libcuda_path_error_iff_unresolved_witness:
  "\<not> list_ex (\<lambda>p. False) possible_paths \<and> \<not> ldconfig_lists None
   \<and> find_libcuda_path (\<lambda>p. False) None = Inl (RuntimeError ''Could not find libcuda.so'')
   \<and> run (\<lambda>p. False) None length = Inl (RuntimeError ''Could not find libcuda.so'')
   \<and> list_ex (\<lambda>p. p = ''/usr/lib64/libcuda.so.1'') possible_paths
   \<and> find_libcuda_path (\<lambda>p. p = ''/usr/lib64/libcuda.so.1'') None = Inr ''/usr/lib64/libcuda.so.1''
   \<and> ldconfig_lists (Some ldconfig_sample)
   \<and> find_libcuda_path (\<lambda>p. False) (Some ldconfig_sample) = Inr ''/usr/lib/wsl/lib/libcuda.so.1''
   \<and> run (\<lambda>p. False) (Some ldconfig_sample) length = Inr 29"
proof -
  have a: "\<not> list_ex (\<lambda>p. False) possible_paths \<and> \<not> ldconfig_lists None"
    by (simp add: possible_paths_def ldconfig_lists_def)
  have b: "list_ex (\<lambda>p. p = ''/usr/lib64/libcuda.so.1'') possible_paths"
    by (simp add: possible_paths_def)
  have c: "ldconfig_lists (Some ldconfig_sample)"
    by (simp add: ldconfig_lists_def ldconfig_sample_lines)
  have d: "find_libcuda_path (\<lambda>p. p = ''/usr/lib64/libcuda.so.1'') None = Inr ''/usr/lib64/libcuda.so.1''"
    by (simp add: find_libcuda_path_def possible_paths_def)
  have e: "run (\<lambda>p. False) (Some ldconfig_sample) length = Inr 29"
    using find_libcuda_path_error_iff_unresolved [of "\<lambda>p. False" "Some ldconfig_sample" length] c
    by (simp add: ldconfig_sample_found)
  show ?thesis
    using find_libcuda_path_error_iff_unresolved [of "\<lambda>p. False" None length] a b c d e
    by (simp add: ldconfig_sample_found LibraryNotFoundError_def)
qed

section \<open>The call depth of a thread\<close>

lemma depth_of_entry:
  "depth_of (trace_cuda_entry ctx t) th =
     (if current_tid ctx = th then depth_of t th + 1 else depth_of t th)"
  by (simp add: trace_cuda_entry_def get_event_id_def depth_of_def Let_def split: option.split)

lemma depth_of_exit:
  "depth_of (trace_cuda_exit ctx t) th =
     (if current_tid ctx = th \<and> 0 < depth_of t th then depth_of t th - 1 else depth_of t th)"
  by (simp add: trace_cuda_exit_def get_event_id_def depth_of_def Let_def split: option.split)

lemma call_depth_exit_at_zero:
  "depth_of t (current_tid ctx) = 0 \<Longrightarrow> call_depth (trace_cuda_exit ctx t) = call_depth t"
  by (simp add: trace_cuda_exit_def get_event_id_def depth_of_def Let_def split: option.splits)

lemma depth_of_fire:
  "depth_of (fire t p) th = (if probe_tid p = th then depth_step (depth_of t th) p else depth_of t th)"
  by (cases p) (simp_all add: depth_of_entry depth_of_exit)

lemma depth_of_run_probes:
  "depth_of (run_probes t ps) th =
     foldl depth_step (depth_of t th) (filter (\<lambda>p. probe_tid p = th) ps)"
proof (induction ps arbitrary: t)
  case Nil
  then show ?case by (simp add: run_probes_def)
next
  case (Cons p ps)
  have "depth_of (run_probes t (p # ps)) th = depth_of (run_probes (fire t p) ps) th"
    by (simp add: run_probes_def)
  then show ?case by (simp add: Cons.IH depth_of_fire)
qed

lemma depth_after_entries: "foldl depth_step d (map Entry es) = d + of_nat (length es)"
  by (induction es arbitrary: d) simp_all

lemma unat_depth_step_exit: "unat (depth_step d (Exit ctx)) = unat d - 1"
  by (simp add: unat_minus_one word_gt_0 unat_eq_zero)

lemma depth_after_exits: "unat (foldl depth_step d (map Exit xs)) = unat d - length xs"
proof (induction xs arbitrary: d)
  case Nil
  then show ?case by simp
next
  case (Cons x xs)
  have "unat (foldl depth_step d (map Exit (x # xs))) = unat (depth_step d (Exit x)) - length xs"
    using Cons.IH [of "depth_step d (Exit x)"] by simp
  then show ?case by (simp add: unat_depth_step_exit del: depth_step.simps)
qed

lemma unat_depth_step_le: "unat (depth_step d p) \<le> unat d + (if is_entry p then 1 else 0)"
proof (cases p)
  case (Entry ctx)
  have "unat (d + 1) \<le> unat d + unat (1 :: u32)"
    by (simp add: unat_word_ariths)
  then show ?thesis using Entry by simp
next
  case (Exit ctx)
  have "unat (depth_step d (Exit ctx)) = unat d - 1" by (rule unat_depth_step_exit)
  then show ?thesis using Exit by (simp del: depth_step.simps)
qed

lemma depth_after_bound:
  "unat (foldl depth_step d ps) \<le> unat d + length (filter is_entry ps)"
proof (induction ps arbitrary: d)
  case Nil
  then show ?case by simp
next
  case (Cons p ps)
  have "unat (foldl depth_step d (p # ps)) \<le> unat (depth_step d p) + length (filter is_entry ps)"
    using Cons.IH [of "depth_step d p"] by simp
  also have "\<dots> \<le> unat d + (if is_entry p then 1 else 0) + length (filter is_entry ps)"
    using unat_depth_step_le [of d p] by simp
  finally show ?case by (simp split: if_splits)
qed

text \<open>
  Claim C5.  The depth of a thread is an unsigned 32-bit counter, so it is never below
  zero; what matters is that the exit probe does not wrap it around.  An exit at depth 0
  (also for a thread that has no entry in \<^verbatim>\<open>call_depth\<close>, its entry probe having been
  missed) leaves \<^verbatim>\<open>call_depth\<close> as it is; in general an exit lowers the depth by one and
  stops at 0.  After any run of probes the depth of a thread is at most its depth before
  plus the number of its entries.  When the probes of a thread, among those of any other
  threads, are \<open>N\<close> entries followed by \<open>N\<close> exits and its depth was 0, its depth is 0
  again afterwards.
\<close>

theorem call_depth_floored_and_balanced:
  "(depth_of t (current_tid ctx) = 0 \<longrightarrow> call_depth (trace_cuda_exit ctx t) = call_depth t)
   \<and> unat (depth_of (trace_cuda_exit ctx t) (current_tid ctx)) =
       unat (depth_of t (current_tid ctx)) - 1
   \<and> unat (depth_of (run_probes t ps) th) \<le>
       unat (depth_of t th) + length (filter is_entry (filter (\<lambda>p. probe_tid p = th) ps))
   \<and> (depth_of t th = 0
        \<and> filter (\<lambda>p. probe_tid p = th) ps = map Entry es @ map Exit xs
        \<and> length es = length xs
      \<longrightarrow> depth_of (run_probes t ps) th = 0)"
proof (intro conjI impI)
  assume "depth_of t (current_tid ctx) = 0"
  then show "call_depth (trace_cuda_exit ctx t) = call_depth t"
    by (rule call_depth_exit_at_zero)
next
  have "depth_of (trace_cuda_exit ctx t) (current_tid ctx) =
        depth_step (depth_of t (current_tid ctx)) (Exit ctx)"
    by (simp add: depth_of_exit)
  then show "unat (depth_of (trace_cuda_exit ctx t) (current_tid ctx)) =
       unat (depth_of t (current_tid ctx)) - 1"
    by (simp add: unat_depth_step_exit del: depth_step.simps)
next
  show "unat (depth_of (run_probes t ps) th) \<le>
       unat (depth_of t th) + length (filter is_entry (filter (\<lambda>p. probe_tid p = th) ps))"
    by (simp only: depth_of_run_probes depth_after_bound)
next
  assume a: "depth_of t th = 0
        \<and> filter (\<lambda>p. probe_tid p = th) ps = map Entry es @ map Exit xs
        \<and> length es = length xs"
  have "unat (depth_of (run_probes t ps) th) =
        unat (foldl depth_step (foldl depth_step 0 (map Entry es)) (map Exit xs))"
    using a by (simp add: depth_of_run_probes)
  also have "\<dots> = unat (of_nat (length es) :: u32) - length xs"
    by (simp add: depth_after_exits depth_after_entries)
  also have "\<dots> = 0"
  proof -
    have "unat (of_nat (length es) :: u32) \<le> length es"
      by (simp add: unat_of_nat)
    then show ?thesis using a by simp
  qed
  finally show "depth_of (run_probes t ps) th = 0"
    by (simp add: unat_eq_zero)
qed

theorem call_depth_floored_and_balanced_witness:
  "depth_of init_tables (current_tid (thread7 50)) = 0
   \<and> call_depth (trace_cuda_exit (thread7 50) init_tables) = call_depth init_tables
   \<and> filter (\<lambda>p. probe_tid p = 7)
        [Entry (thread7 10), Entry (thread7 20), Exit (thread7 30), Exit (thread7 40)] =
       map Entry [thread7 10, thread7 20] @ map Exit [thread7 30, thread7 40]
   \<and> length [thread7 10, thread7 20] = length [thread7 30, thread7 40]
   \<and> depth_of (run_probes init_tables
        [Entry (thread7 10), Entry (thread7 20), Exit (thread7 30), Exit (thread7 40)]) 7 = 0"
proof -
  have tid: "\<And>now. current_tid (thread7 now) = 7"
    by (simp add: thread7_def current_tid_def)
  have z: "depth_of init_tables (current_tid (thread7 50)) = 0" "depth_of init_tables 7 = 0"
    by (simp_all add: depth_of_def init_tables_def)
  have f: "filter (\<lambda>p. probe_tid p = 7)
        [Entry (thread7 10), Entry (thread7 20), Exit (thread7 30), Exit (thread7 40)] =
       map Entry [thread7 10, thread7 20] @ map Exit [thread7 30, thread7 40]"
    by (simp add: tid)
  show ?thesis
    using call_depth_floored_and_balanced [of init_tables "thread7 50"
        "[Entry (thread7 10), Entry (thread7 20), Exit (thread7 30), Exit (thread7 40)]" 7
        "[thread7 10, thread7 20]" "[thread7 30, thread7 40]"] z f
    by simp
qed

end
